theory Spec2Isabelle
  imports Main "HOL-Library.Multiset"
begin

section \<open>Values and errors\<close>

text \<open>
  The job reads JSON files, so a raw event is whatever \<^verbatim>\<open>json.loads\<close> produced for one
  array element. A Python \<^verbatim>\<open>str\<close> is modelled as a \<open>string\<close>, each \<open>char\<close> being a code point
  below 256, a Python \<^verbatim>\<open>int\<close> as an \<open>int\<close>. The hashable values (\<^verbatim>\<open>None\<close>, \<^verbatim>\<open>bool\<close>, \<^verbatim>\<open>int\<close>, \<^verbatim>\<open>str\<close>) are kept apart from lists
  and dicts, because only they can be part of a dict key. A dict is the list of its items,
  each key once. JSON numbers with a fraction or an exponent become Python floats; floats
  are not part of this model.
\<close>

datatype scalar = PNone | PBool bool | PInt int | PStr string

datatype json = Scalar scalar | JArray "json list" | JObject "(string \<times> json) list"

text \<open>
  Exceptions are values. Each constructor is one \<^verbatim>\<open>raise\<close> of the source (or of a library
  call the source makes), named by its Python class:
  \<^item> \<open>UnicodeDecodeError\<close>: \<^verbatim>\<open>data.decode("utf-8")\<close> failed (the spec's DecodingError);
  \<^item> \<open>JSONDecodeError\<close>: \<^verbatim>\<open>json.loads\<close> failed (the spec's ParseError);
  \<^item> \<open>ValueError_ExpectedArray name\<close>: \<^verbatim>\<open>ValueError(f"Expected JSON array in {blob.name}")\<close>
    (the spec's SchemaError);
  \<^item> \<open>ValueError_InvalidTimestamp event\<close>:
    \<^verbatim>\<open>ValueError(f"Invalid timestamp format: {event}")\<close> (the spec's ValidationError);
  \<^item> \<open>ValueError_InvalidLiteral s\<close>: \<^verbatim>\<open>int(s)\<close> failed, \<open>s\<close> not being the literal of an
    integer; \<open>ValueError_ExceedsLimit\<close>: \<^verbatim>\<open>int(s)\<close> failed, \<open>s\<close> having more digits than \<^verbatim>\<open>int\<close>
    converts;
  \<^item> \<open>ValueError_InvalidIsoformat s\<close>: \<^verbatim>\<open>datetime.fromisoformat(s)\<close> failed;
  \<^item> \<open>RuntimeError_MissingEnv name\<close>:
    \<^verbatim>\<open>RuntimeError(f"Missing required environment variable: {name}")\<close>
    (the spec's ConfigurationError);
  \<^item> \<open>OverflowError\<close>: a \<^verbatim>\<open>timedelta\<close> or a \<^verbatim>\<open>datetime\<close> out of the range of its type;
  \<^item> \<open>KeyError k\<close>: a dict has no key \<open>k\<close>;
  \<^item> \<open>TypeError\<close>, \<open>AttributeError\<close>: an operation applied to a value of the wrong type.
\<close>

datatype error =
    UnicodeDecodeError
  | JSONDecodeError
  | ValueError_ExpectedArray string
  | ValueError_InvalidTimestamp json
  | ValueError_InvalidLiteral string
  | ValueError_ExceedsLimit
  | ValueError_InvalidIsoformat string
  | RuntimeError_MissingEnv string
  | OverflowError
  | KeyError string
  | TypeError
  | AttributeError

section \<open>Decimal digits\<close>

definition is_digit :: "char \<Rightarrow> bool" where
  "is_digit c = (48 \<le> (of_char c :: int) \<and> (of_char c :: int) \<le> 57)"

definition digit_val :: "char \<Rightarrow> int" where
  "digit_val c = of_char c - 48"

definition digit_char :: "int \<Rightarrow> char" where
  "digit_char n = char_of (48 + n)"

text \<open>The value of a run of decimal digits.\<close>

definition digits_value :: "string \<Rightarrow> int" where
  "digits_value ds = foldl (\<lambda>n c. 10 * n + digit_val c) 0 ds"

text \<open>The decimal digits of a non-negative integer.\<close>

function str_nat :: "int \<Rightarrow> string" where
  "str_nat n = (if n < 10 then [digit_char n] else str_nat (n div 10) @ [digit_char (n mod 10)])"
  by pat_completeness auto
termination
  by (relation "measure nat") auto

declare str_nat.simps [simp del]

text \<open>\<^verbatim>\<open>str(i)\<close> for a Python int.\<close>

definition str_int :: "int \<Rightarrow> string" where
  "str_int i = (if i < 0 then CHR ''-'' # str_nat (- i) else str_nat i)"

text \<open>\<^verbatim>\<open>"%0wd" % n\<close> for a non-negative \<open>n\<close>: decimal, padded with zeros to width \<open>w\<close>.\<close>

definition zero_pad :: "nat \<Rightarrow> int \<Rightarrow> string" where
  "zero_pad w n = replicate (w - length (str_nat n)) CHR ''0'' @ str_nat n"

section \<open>The datetime library\<close>

text \<open>
  The library is the one of CPython 3.11 on Linux, whose \<^verbatim>\<open>datetime\<close> type is implemented in
  C (\<^verbatim>\<open>Modules/_datetimemodule.c\<close>); the functions below carry the names they have there.

  A \<^verbatim>\<open>datetime\<close> object: its calendar fields and its \<^verbatim>\<open>tzinfo\<close>, here the UTC offset in
  microseconds of a fixed-offset \<^verbatim>\<open>timezone\<close>, or \<open>None\<close> for a naive datetime. The field
  \<^verbatim>\<open>hour\<close> is called \<open>hour_of_day\<close>, since \<open>hour\<close> is a key of the event records below.
\<close>

record datetime =
  year :: int
  month :: int
  day :: int
  hour_of_day :: int
  minute :: int
  second :: int
  microsecond :: int
  tzinfo :: "int option"

definition is_leap :: "int \<Rightarrow> bool" where
  "is_leap y = (y mod 4 = 0 \<and> (y mod 100 \<noteq> 0 \<or> y mod 400 = 0))"

definition days_in_month :: "int \<Rightarrow> int \<Rightarrow> int" where
  "days_in_month y m =
     (if m = 2 then (if is_leap y then 29 else 28)
      else if m = 4 \<or> m = 6 \<or> m = 9 \<or> m = 11 then 30 else 31)"

definition days_before_year :: "int \<Rightarrow> int" where
  "days_before_year y = (y - 1) * 365 + (y - 1) div 4 - (y - 1) div 100 + (y - 1) div 400"

definition days_before_month :: "int \<Rightarrow> int \<Rightarrow> int" where
  "days_before_month y m =
     [0, 0, 31, 59, 90, 120, 151, 181, 212, 243, 273, 304, 334] ! nat m
       + (if 2 < m \<and> is_leap y then 1 else 0)"

text \<open>\<^verbatim>\<open>date.toordinal()\<close>: the day number, 0001-01-01 being day 1.\<close>

definition ymd2ord :: "int \<Rightarrow> int \<Rightarrow> int \<Rightarrow> int" where
  "ymd2ord y m d = days_before_year y + days_before_month y m + d"

text \<open>Microseconds from 0001-01-00T00:00:00 to the wall-clock reading of the fields.\<close>

definition wall_us :: "datetime \<Rightarrow> int" where
  "wall_us t =
     (((ymd2ord (year t) (month t) (day t) * 24 + hour_of_day t) * 60
        + minute t) * 60 + second t) * 1000000 + microsecond t"

text \<open>
  What \<^verbatim>\<open>==\<close> and \<^verbatim>\<open>hash\<close> see of a datetime. Two naive datetimes are equal when their
  fields are; two aware datetimes are equal when they are the same instant, whatever
  their offsets; a naive and an aware datetime are never equal. So the key of a naive
  datetime is its wall-clock reading, the key of an aware one its reading minus its
  offset.
\<close>

definition dt_key :: "datetime \<Rightarrow> int + int" where
  "dt_key t = (case tzinfo t of None \<Rightarrow> Inl (wall_us t) | Some off \<Rightarrow> Inr (wall_us t - off))"

definition dt_eq :: "datetime \<Rightarrow> datetime \<Rightarrow> bool" where
  "dt_eq a b = (dt_key a = dt_key b)"

text \<open>The range check of the \<^verbatim>\<open>datetime\<close> constructor.\<close>

definition valid_fields :: "int \<Rightarrow> int \<Rightarrow> int \<Rightarrow> int \<Rightarrow> int \<Rightarrow> int \<Rightarrow> int \<Rightarrow> bool" where
  "valid_fields y m d hh mm ss us =
     (1 \<le> y \<and> y \<le> 9999 \<and> 1 \<le> m \<and> m \<le> 12 \<and> 1 \<le> d \<and> d \<le> days_in_month y m
      \<and> 0 \<le> hh \<and> hh \<le> 23 \<and> 0 \<le> mm \<and> mm \<le> 59 \<and> 0 \<le> ss \<and> ss \<le> 59
      \<and> 0 \<le> us \<and> us \<le> 999999)"

definition new_datetime ::
  "int \<Rightarrow> int \<Rightarrow> int \<Rightarrow> int \<Rightarrow> int \<Rightarrow> int \<Rightarrow> int \<Rightarrow> int option \<Rightarrow> datetime option" where
  "new_datetime y m d hh mm ss us tz =
     (if valid_fields y m d hh mm ss us
      then Some \<lparr>year = y, month = m, day = d, hour_of_day = hh, minute = mm, second = ss,
                 microsecond = us, tzinfo = tz\<rparr>
      else None)"

subsection \<open>ISO week dates\<close>

text \<open>
  \<^verbatim>\<open>ord_to_ymd\<close>: the date of a day number. \<open>n400\<close>, \<open>n100\<close>, \<open>n4\<close> and \<open>n1\<close> count the whole
  cycles of 400, 100, 4 and 1 years before the day, \<open>n\<close> is the day in the year, from 0.
  The month is estimated as \<open>(n + 50) div 32\<close>, which is right or one too large.
\<close>

definition ord_to_ymd :: "int \<Rightarrow> int \<times> int \<times> int" where
  "ord_to_ymd ordinal =
     (let n400 = (ordinal - 1) div 146097; r400 = (ordinal - 1) mod 146097;
          n100 = r400 div 36524; r100 = r400 mod 36524;
          n4 = r100 div 1461; r4 = r100 mod 1461;
          n1 = r4 div 365; n = r4 mod 365;
          y = n400 * 400 + 1 + n100 * 100 + n4 * 4 + n1
      in if n1 = 4 \<or> n100 = 4 then (y - 1, 12, 31)
         else
           (let m = (n + 50) div 32;
                preceding = days_before_month y m
            in if preceding > n
               then (y, m - 1, n - (preceding - days_in_month y (m - 1)) + 1)
               else (y, m, n - preceding + 1)))"

text \<open>\<^verbatim>\<open>weekday\<close>: Monday is 0. \<^verbatim>\<open>iso_week1_monday\<close>: the day number of the Monday of week 1.\<close>

definition weekday :: "int \<Rightarrow> int \<Rightarrow> int \<Rightarrow> int" where
  "weekday y m d = (ymd2ord y m d + 6) mod 7"

definition iso_week1_monday :: "int \<Rightarrow> int" where
  "iso_week1_monday y =
     (let first_day = ymd2ord y 1 1;
          first_weekday = (first_day + 6) mod 7;
          week1_monday = first_day - first_weekday
      in if first_weekday > 3 then week1_monday + 7 else week1_monday)"

text \<open>
  \<^verbatim>\<open>iso_to_ymd\<close>: the date of an ISO year, week and day. Week 53 exists in the years that
  begin on a Thursday and in the leap years that begin on a Wednesday.
\<close>

definition iso_to_ymd :: "int \<Rightarrow> int \<Rightarrow> int \<Rightarrow> (int \<times> int \<times> int) option" where
  "iso_to_ymd iso_year iso_week iso_day =
     (let first_weekday = weekday iso_year 1 1;
          has_week = (if iso_week \<le> 0 \<or> iso_week \<ge> 53
                      then iso_week = 53
                           \<and> (first_weekday = 3 \<or> (first_weekday = 2 \<and> is_leap iso_year))
                      else True)
      in if \<not> has_week then None
         else if iso_day \<le> 0 \<or> iso_day \<ge> 8 then None
         else Some (ord_to_ymd (iso_week1_monday iso_year + (iso_week - 1) * 7 + iso_day - 1)))"

subsection \<open>\<^verbatim>\<open>datetime.fromisoformat\<close>\<close>

text \<open>
  The parser works on the UTF-8 encoding of the string, a C string: after its last byte
  comes a NUL byte. A \<open>char\<close> of a \<open>string\<close> is a code point below 256, so it is encoded in
  one byte or in two.
\<close>

definition utf8_char :: "char \<Rightarrow> char list" where
  "utf8_char c =
     (let n = (of_char c :: nat)
      in if n < 128 then [c] else [char_of (192 + n div 64), char_of (128 + n mod 64)])"

definition utf8 :: "string \<Rightarrow> char list" where
  "utf8 s = concat (map utf8_char s)"

definition byte_at :: "char list \<Rightarrow> nat \<Rightarrow> char" where
  "byte_at s i = (if i < length s then s ! i else CHR 0x00)"

text \<open>\<^verbatim>\<open>parse_digits\<close>: the value of the \<open>num_digits\<close> bytes from position \<open>p\<close>, all digits.\<close>

definition parse_digits :: "char list \<Rightarrow> nat \<Rightarrow> nat \<Rightarrow> int option" where
  "parse_digits s p num_digits =
     (let ds = map (byte_at s) [p..<p + num_digits]
      in if list_all is_digit ds then Some (digits_value ds) else None)"

text \<open>
  \<^verbatim>\<open>_find_isoformat_datetime_separator\<close>: where the date ends, told from the bytes 4 and 5
  and the length: \<^verbatim>\<open>YYYY-MM-DD\<close> (10), \<^verbatim>\<open>YYYYMMDD\<close> (8), \<^verbatim>\<open>YYYY-Www\<close> (8), \<^verbatim>\<open>YYYYWww\<close> (7),
  \<^verbatim>\<open>YYYY-Www-d\<close> (10), \<^verbatim>\<open>YYYYWwwd\<close> (8). \<open>None\<close> is the result \<^verbatim>\<open>-1\<close>, with which no date parses.
\<close>

definition find_isoformat_datetime_separator :: "char list \<Rightarrow> nat option" where
  "find_isoformat_datetime_separator dtstr =
     (let len = length dtstr
      in if len = 7 then Some 7
         else if byte_at dtstr 4 = CHR ''-'' then
           (if byte_at dtstr 5 = CHR ''W'' then
              (if len < 8 then None
               else if len > 8 \<and> byte_at dtstr 8 = CHR ''-'' then
                 (if len = 9 then None
                  else if len > 10 \<and> is_digit (byte_at dtstr 10) then Some 8
                  else Some 10)
               else Some 8)
            else Some 10)
         else if byte_at dtstr 4 = CHR ''W'' then
           (let idx = 7 + length (takeWhile is_digit (drop 7 dtstr))
            in if idx < 9 then Some idx else if even idx then Some 7 else Some 8)
         else Some 8)"

text \<open>\<^verbatim>\<open>parse_isoformat_date\<close>: the date in the first \<open>len\<close> bytes.\<close>

definition parse_isoformat_date :: "char list \<Rightarrow> nat \<Rightarrow> (int \<times> int \<times> int) option" where
  "parse_isoformat_date dtstr len =
     (case parse_digits dtstr 0 4 of
        None \<Rightarrow> None
      | Some y \<Rightarrow>
          (let uses_separator = (byte_at dtstr 4 = CHR ''-'');
               cursor = (if uses_separator then 5 else 4)
           in if byte_at dtstr cursor = CHR ''W'' then
                (case parse_digits dtstr (cursor + 1) 2 of
                   None \<Rightarrow> None
                 | Some iso_week \<Rightarrow>
                     if cursor + 3 < len then
                       (if uses_separator \<and> byte_at dtstr (cursor + 3) \<noteq> CHR ''-'' then None
                        else
                          (case parse_digits dtstr
                                  (if uses_separator then cursor + 4 else cursor + 3) 1 of
                             None \<Rightarrow> None
                           | Some iso_day \<Rightarrow> iso_to_ymd y iso_week iso_day))
                     else iso_to_ymd y iso_week 1)
              else
                (case parse_digits dtstr cursor 2 of
                   None \<Rightarrow> None
                 | Some m \<Rightarrow>
                     if uses_separator \<and> byte_at dtstr (cursor + 2) \<noteq> CHR ''-'' then None
                     else
                       (case parse_digits dtstr
                               (if uses_separator then cursor + 3 else cursor + 2) 2 of
                          None \<Rightarrow> None
                        | Some d \<Rightarrow> Some (y, m, d)))))"

text \<open>
  \<^verbatim>\<open>parse_hh_mm_ss_ff\<close> reads \<^verbatim>\<open>HH[:MM[:SS]]\<close> or \<^verbatim>\<open>HH[MM[SS]]\<close> and a fraction between the
  positions \<open>p\<close> and \<open>p_end\<close>. Its loop over the three components ends in one of three
  ways: an error, a return (with the flag that the byte read last was not the NUL byte),
  or the fraction is to be read from a position.
\<close>

datatype components = Error | Return bool "int list" | Fraction nat "int list"

fun components_loop ::
  "char list \<Rightarrow> nat \<Rightarrow> nat list \<Rightarrow> nat \<Rightarrow> bool \<Rightarrow> int list \<Rightarrow> components" where
  "components_loop tstr p_end [] p has_separator vals = Fraction p vals"
| "components_loop tstr p_end (i # is) p has_separator vals =
     (case parse_digits tstr p 2 of
        None \<Rightarrow> Error
      | Some v \<Rightarrow>
          (let c = byte_at tstr (p + 2);
               has_separator = (if i = 0 then c = CHR '':'' else has_separator)
           in if p + 3 \<ge> p_end then Return (c \<noteq> CHR 0x00) (vals[i := v])
              else if has_separator \<and> c = CHR '':'' then
                components_loop tstr p_end is (p + 3) has_separator (vals[i := v])
              else if c = CHR ''.'' \<or> c = CHR '','' then Fraction (p + 3) (vals[i := v])
              else if \<not> has_separator then
                components_loop tstr p_end is (p + 2) has_separator (vals[i := v])
              else Error))"

text \<open>
  The fraction: up to six digits are read, as many as there are bytes before \<open>p_end\<close>, and
  scaled to microseconds; further digits are skipped. The flag of the result tells that
  the byte after them is not the NUL byte.
\<close>

definition parse_hh_mm_ss_ff ::
  "char list \<Rightarrow> nat \<Rightarrow> nat \<Rightarrow> (bool \<times> int \<times> int \<times> int \<times> int) option" where
  "parse_hh_mm_ss_ff tstr p p_end =
     (case components_loop tstr p_end [0, 1, 2] p True [0, 0, 0] of
        Error \<Rightarrow> None
      | Return rest vals \<Rightarrow> Some (rest, vals ! 0, vals ! 1, vals ! 2, 0)
      | Fraction q vals \<Rightarrow>
          (let len_remains = p_end - q;
               to_parse = (if len_remains \<ge> 6 then 6 else len_remains)
           in case parse_digits tstr q to_parse of
                None \<Rightarrow> None
              | Some f \<Rightarrow>
                  (let us = f * 10 ^ (6 - to_parse);
                       r = q + to_parse + length (takeWhile is_digit (drop (q + to_parse) tstr))
                   in Some (byte_at tstr r \<noteq> CHR 0x00, vals ! 0, vals ! 1, vals ! 2, us))))"

text \<open>
  \<^verbatim>\<open>parse_isoformat_time\<close>: the time from position \<open>p\<close> on. The offset starts at the first
  \<^verbatim>\<open>Z\<close>, \<^verbatim>\<open>+\<close> or \<^verbatim>\<open>-\<close>. Without an offset nothing may follow the time; with one, what follows
  the time before the offset is not looked at. The result is the clock fields and, if
  there is an offset, its whole seconds and its microseconds, both signed.
\<close>

definition parse_isoformat_time ::
  "char list \<Rightarrow> nat \<Rightarrow> ((int \<times> int \<times> int \<times> int) \<times> (int \<times> int) option) option" where
  "parse_isoformat_time dtstr p =
     (let p_end = length dtstr;
          tzinfo_pos = p + length (takeWhile (\<lambda>c. c \<noteq> CHR ''Z'' \<and> c \<noteq> CHR ''+'' \<and> c \<noteq> CHR ''-'')
                                     (drop p dtstr))
      in case parse_hh_mm_ss_ff dtstr p tzinfo_pos of
           None \<Rightarrow> None
         | Some (rest, t) \<Rightarrow>
             if tzinfo_pos \<ge> p_end then (if rest then None else Some (t, None))
             else if byte_at dtstr tzinfo_pos = CHR ''Z'' then
               (if byte_at dtstr (tzinfo_pos + 1) \<noteq> CHR 0x00 then None else Some (t, Some (0, 0)))
             else
               (let tzsign = (if byte_at dtstr tzinfo_pos = CHR ''-'' then - 1 else 1)
                in case parse_hh_mm_ss_ff dtstr (tzinfo_pos + 1) p_end of
                     None \<Rightarrow> None
                   | Some (rest, tzhour, tzminute, tzsecond, tzmicrosecond) \<Rightarrow>
                       if rest then None
                       else Some (t, Some (tzsign * (tzhour * 3600 + tzminute * 60 + tzsecond),
                                           tzsign * tzmicrosecond))))"

text \<open>
  \<^verbatim>\<open>tzinfo_from_isoformat_results\<close>: an offset whose whole seconds are 0 is
  \<^verbatim>\<open>timezone.utc\<close>, whatever its microseconds; any other offset makes a \<^verbatim>\<open>timezone\<close>, which
  must be strictly between \<^verbatim>\<open>-24:00\<close> and \<^verbatim>\<open>+24:00\<close>. The outer \<open>None\<close> is the \<^verbatim>\<open>ValueError\<close>.
\<close>

definition tzinfo_from_isoformat_results :: "(int \<times> int) option \<Rightarrow> int option option" where
  "tzinfo_from_isoformat_results tz =
     (case tz of
        None \<Rightarrow> Some None
      | Some (tzoffset, tz_useconds) \<Rightarrow>
          if tzoffset = 0 then Some (Some 0)
          else
            (let delta = tzoffset * 1000000 + tz_useconds
             in if - 86400000000 < delta \<and> delta < 86400000000 then Some (Some delta)
                else None))"

text \<open>
  \<^verbatim>\<open>datetime.fromisoformat\<close>: the date, one separating character (of one byte or of two),
  the time. \<open>None\<close> stands for the \<^verbatim>\<open>ValueError\<close> the library raises.
\<close>

definition fromisoformat :: "string \<Rightarrow> datetime option" where
  "fromisoformat date_string =
     (let dt_ptr = utf8 date_string;
          len = length dt_ptr
      in if len < 7 then None
         else
           (case find_isoformat_datetime_separator dt_ptr of
              None \<Rightarrow> None
            | Some separator_location \<Rightarrow>
                (case parse_isoformat_date dt_ptr separator_location of
                   None \<Rightarrow> None
                 | Some (y, m, d) \<Rightarrow>
                     (case (if len > separator_location
                            then parse_isoformat_time dt_ptr
                                   (separator_location
                                    + (if (of_char (byte_at dt_ptr separator_location) :: nat) < 128
                                       then 1 else 2))
                            else Some ((0, 0, 0, 0), None)) of
                        None \<Rightarrow> None
                      | Some ((hh, mm, ss, us), tz) \<Rightarrow>
                          (case tzinfo_from_isoformat_results tz of
                             None \<Rightarrow> None
                           | Some tz_info \<Rightarrow> new_datetime y m d hh mm ss us tz_info)))))"

subsection \<open>\<^verbatim>\<open>datetime.isoformat\<close>, \<^verbatim>\<open>strftime\<close>\<close>

definition format_offset :: "int option \<Rightarrow> string" where
  "format_offset tz =
     (case tz of
        None \<Rightarrow> []
      | Some off \<Rightarrow>
          (let a = \<bar>off\<bar>;
               hh = a div 3600000000;
               mm = (a mod 3600000000) div 60000000;
               ss = (a mod 60000000) div 1000000;
               us = a mod 1000000
           in (if off < 0 then ''-'' else ''+'') @ zero_pad 2 hh @ '':'' @ zero_pad 2 mm
              @ (if ss \<noteq> 0 \<or> us \<noteq> 0 then '':'' @ zero_pad 2 ss else [])
              @ (if us \<noteq> 0 then ''.'' @ zero_pad 6 us else [])))"

text \<open>
  \<^verbatim>\<open>t.isoformat(sep)\<close>: \<^verbatim>\<open>YYYY-MM-DD\<close>, the separator, \<^verbatim>\<open>HH:MM:SS[.ffffff][+HH:MM[:SS[.ffffff]]]\<close>.
  \<^verbatim>\<open>t.isoformat()\<close> separates with \<^verbatim>\<open>T\<close>, \<^verbatim>\<open>str(t)\<close> with a space.
\<close>

definition isoformat_sep :: "char \<Rightarrow> datetime \<Rightarrow> string" where
  "isoformat_sep sep t =
     zero_pad 4 (year t) @ ''-'' @ zero_pad 2 (month t) @ ''-'' @ zero_pad 2 (day t) @ [sep]
     @ zero_pad 2 (hour_of_day t) @ '':'' @ zero_pad 2 (minute t) @ '':'' @ zero_pad 2 (second t)
     @ (if microsecond t \<noteq> 0 then ''.'' @ zero_pad 6 (microsecond t) else [])
     @ format_offset (tzinfo t)"

definition isoformat :: "datetime \<Rightarrow> string" where
  "isoformat t = isoformat_sep CHR ''T'' t"

definition str_datetime :: "datetime \<Rightarrow> string" where
  "str_datetime t = isoformat_sep CHR '' '' t"

text \<open>
  \<^verbatim>\<open>t.strftime("%Y")\<close>, \<^verbatim>\<open>"%m"\<close>, \<^verbatim>\<open>"%d"\<close>, \<^verbatim>\<open>"%H"\<close>, of the datetime's own calendar fields (no
  conversion between time zones takes place). The formatting is done by \<^verbatim>\<open>strftime\<close> of the
  C library, here the one of Linux (glibc): it writes the year in decimal without
  padding, so a year before 1000 has fewer than four digits, and the month, the day and
  the hour in two digits.
\<close>

definition strftime_Y :: "datetime \<Rightarrow> string" where
  "strftime_Y t = str_nat (year t)"

definition strftime_m :: "datetime \<Rightarrow> string" where
  "strftime_m t = zero_pad 2 (month t)"

definition strftime_d :: "datetime \<Rightarrow> string" where
  "strftime_d t = zero_pad 2 (day t)"

definition strftime_H :: "datetime \<Rightarrow> string" where
  "strftime_H t = zero_pad 2 (hour_of_day t)"

section \<open>Normalizer\<close>

text \<open>
  \<^verbatim>\<open>event[key]\<close>: a dict gives the value of the key or raises \<^verbatim>\<open>KeyError\<close>; a list, a
  string, a number, a bool or \<^verbatim>\<open>None\<close> subscripted by a string raises \<^verbatim>\<open>TypeError\<close>.
\<close>

definition getitem :: "json \<Rightarrow> string \<Rightarrow> error + json" where
  "getitem v k =
     (case v of
        JObject items \<Rightarrow> (case map_of items k of None \<Rightarrow> Inl (KeyError k) | Some x \<Rightarrow> Inr x)
      | _ \<Rightarrow> Inl TypeError)"

text \<open>\<^verbatim>\<open>s.replace("Z", "+00:00")\<close>: every \<^verbatim>\<open>Z\<close> of the string is replaced.\<close>

definition replace_Z :: "string \<Rightarrow> string" where
  "replace_Z s = concat (map (\<lambda>c. if c = CHR ''Z'' then ''+00:00'' else [c]) s)"

text \<open>
  The body of the \<^verbatim>\<open>try\<close> block:
  \<^verbatim>\<open>datetime.fromisoformat(event["event_timestamp"].replace("Z", "+00:00"))\<close>. Only a \<^verbatim>\<open>str\<close>
  has this \<^verbatim>\<open>replace\<close>; any other value raises \<^verbatim>\<open>AttributeError\<close>.
\<close>

definition parse_event_timestamp :: "json \<Rightarrow> error + datetime" where
  "parse_event_timestamp event =
     (case getitem event ''event_timestamp'' of
        Inl e \<Rightarrow> Inl e
      | Inr (Scalar (PStr s)) \<Rightarrow>
          (case fromisoformat (replace_Z s) of
             None \<Rightarrow> Inl (ValueError_InvalidIsoformat (replace_Z s))
           | Some ts \<Rightarrow> Inr ts)
      | Inr _ \<Rightarrow> Inl AttributeError)"

text \<open>\<^verbatim>\<open>ts.replace(minute=0, second=0, microsecond=0)\<close>\<close>

definition truncate_to_hour :: "datetime \<Rightarrow> datetime" where
  "truncate_to_hour ts = ts\<lparr>minute := 0, second := 0, microsecond := 0\<rparr>"

text \<open>
  The dicts \<^verbatim>\<open>{"hour": ..., "event_type": ...}\<close> and
  \<^verbatim>\<open>{"hour": ..., "event_type": ..., "total_events": ...}\<close>. The normalizer copies
  \<^verbatim>\<open>event["event_type"]\<close> as it is, so there the event type is any JSON value.
\<close>

record 'v normalized_event =
  hour :: datetime
  event_type :: 'v

record 'v aggregate_record = "'v normalized_event" +
  total_events :: int

text \<open>
  The loop of \<^verbatim>\<open>normalize_events\<close>, \<open>normalized\<close> being the list built so far. The
  \<^verbatim>\<open>except Exception\<close> turns every error of the \<^verbatim>\<open>try\<close> block into the \<^verbatim>\<open>ValueError\<close> that names
  the event; \<^verbatim>\<open>event["event_type"]\<close> is read after the block, outside of it.
\<close>

fun normalize_loop ::
  "json normalized_event list \<Rightarrow> json list \<Rightarrow> error + json normalized_event list" where
  "normalize_loop normalized [] = Inr normalized"
| "normalize_loop normalized (event # events) =
     (case parse_event_timestamp event of
        Inl _ \<Rightarrow> Inl (ValueError_InvalidTimestamp event)
      | Inr ts \<Rightarrow>
          (let hour_bucket = truncate_to_hour ts
           in case getitem event ''event_type'' of
                Inl e \<Rightarrow> Inl e
              | Inr t \<Rightarrow>
                  normalize_loop (normalized @ [\<lparr>hour = hour_bucket, event_type = t\<rparr>]) events))"

definition normalize_events :: "json list \<Rightarrow> error + json normalized_event list" where
  "normalize_events events = normalize_loop [] events"

section \<open>Aggregator\<close>

text \<open>
  What \<^verbatim>\<open>==\<close> and \<^verbatim>\<open>hash\<close> see of a hashable JSON value: \<^verbatim>\<open>True == 1\<close> and \<^verbatim>\<open>False == 0\<close>, and
  otherwise values of different types differ.
\<close>

definition scalar_key :: "scalar \<Rightarrow> scalar" where
  "scalar_key v = (case v of PBool b \<Rightarrow> PInt (if b then 1 else 0) | _ \<Rightarrow> v)"

text \<open>Equality of the tuples \<^verbatim>\<open>(hour, event_type)\<close> that key the aggregation dict.\<close>

definition key_nf :: "datetime \<times> scalar \<Rightarrow> (int + int) \<times> scalar" where
  "key_nf k = (dt_key (fst k), scalar_key (snd k))"

definition key_eq :: "datetime \<times> scalar \<Rightarrow> datetime \<times> scalar \<Rightarrow> bool" where
  "key_eq k k' = (key_nf k = key_nf k')"

text \<open>
  \<^verbatim>\<open>aggregation[key] += 1\<close> on a \<^verbatim>\<open>defaultdict(int)\<close>. The dict is a list of items in
  insertion order, as \<^verbatim>\<open>items()\<close> yields them; \<open>eq\<close> is the equality of keys. A key that is
  present keeps its place and its first key object; a new key is appended with \<open>0 + 1\<close>.
\<close>

fun dict_incr :: "('k \<Rightarrow> 'k \<Rightarrow> bool) \<Rightarrow> ('k \<times> int) list \<Rightarrow> 'k \<Rightarrow> ('k \<times> int) list" where
  "dict_incr eq [] key = [(key, 0 + 1)]"
| "dict_incr eq ((k, n) # items) key =
     (if eq k key then (k, n + 1) # items else (k, n) # dict_incr eq items key)"

text \<open>
  The first loop of \<^verbatim>\<open>aggregate_events\<close>. Hashing the key raises \<^verbatim>\<open>TypeError\<close> when the event
  type is a list or a dict.
\<close>

fun aggregate_loop ::
  "((datetime \<times> scalar) \<times> int) list \<Rightarrow> json normalized_event list
     \<Rightarrow> error + ((datetime \<times> scalar) \<times> int) list" where
  "aggregate_loop aggregation [] = Inr aggregation"
| "aggregate_loop aggregation (record # records) =
     (case event_type record of
        Scalar t \<Rightarrow> aggregate_loop (dict_incr key_eq aggregation (hour record, t)) records
      | _ \<Rightarrow> Inl TypeError)"

definition aggregate_events ::
  "json normalized_event list \<Rightarrow> error + scalar aggregate_record list" where
  "aggregate_events normalized_events =
     (case aggregate_loop [] normalized_events of
        Inl e \<Rightarrow> Inl e
      | Inr aggregation \<Rightarrow>
          Inr (map (\<lambda>((hour, event_type), total).
                 \<lparr>hour = hour, event_type = event_type, total_events = total\<rparr>) aggregation))"

section \<open>Partitioned writer\<close>

text \<open>
  \<^verbatim>\<open>records_by_hour.setdefault(hour, []).append(record)\<close> on a dict kept as its list of
  items in insertion order. A key that is present keeps its place and its first key object.
\<close>

fun setdefault_append ::
  "('k \<Rightarrow> 'k \<Rightarrow> bool) \<Rightarrow> ('k \<times> 'v list) list \<Rightarrow> 'k \<Rightarrow> 'v \<Rightarrow> ('k \<times> 'v list) list" where
  "setdefault_append eq [] key v = [(key, [] @ [v])]"
| "setdefault_append eq ((k, vs) # items) key v =
     (if eq k key then (k, vs @ [v]) # items else (k, vs) # setdefault_append eq items key v)"

text \<open>
  The \<^verbatim>\<open>csv\<close> module with its default dialect: a field that is not a string is written as
  \<^verbatim>\<open>str(field)\<close>, \<^verbatim>\<open>None\<close> as the empty string; a field holding a comma, a double quote, a
  carriage return or a line feed is put in double quotes, with its double quotes doubled;
  fields are joined by commas and the row ends with \<^verbatim>\<open>\r\n\<close>.
\<close>

definition str_bool :: "bool \<Rightarrow> string" where
  "str_bool b = (if b then ''True'' else ''False'')"

definition csv_str :: "scalar \<Rightarrow> string" where
  "csv_str v =
     (case v of PNone \<Rightarrow> [] | PBool b \<Rightarrow> str_bool b | PInt i \<Rightarrow> str_int i | PStr s \<Rightarrow> s)"

definition csv_special :: "char \<Rightarrow> bool" where
  "csv_special c = (c = CHR '','' \<or> c = CHR 0x22 \<or> c = CHR 0x0D \<or> c = CHR 0x0A)"

definition csv_field :: "string \<Rightarrow> string" where
  "csv_field s =
     (if list_ex csv_special s
      then [CHR 0x22] @ concat (map (\<lambda>c. if c = CHR 0x22 then [c, c] else [c]) s) @ [CHR 0x22]
      else s)"

fun join_fields :: "string list \<Rightarrow> string" where
  "join_fields [] = []"
| "join_fields [f] = f"
| "join_fields (f # fs) = f @ '','' @ join_fields fs"

definition writerow :: "string list \<Rightarrow> string" where
  "writerow row = join_fields (map csv_field row) @ [CHR 0x0D, CHR 0x0A]"

text \<open>One \<^verbatim>\<open>blob.upload_from_string(data, content_type=...)\<close> on a bucket.\<close>

record upload =
  bucket :: string
  path :: string
  data :: string
  content_type :: string

text \<open>The buffer written for one hour: the header row, then one row for each record.\<close>

definition csv_rows :: "scalar aggregate_record list \<Rightarrow> string" where
  "csv_rows records =
     concat (map (\<lambda>r. writerow [isoformat (hour r), csv_str (event_type r),
                                  str_int (total_events r)]) records)"

definition csv_document :: "scalar aggregate_record list \<Rightarrow> string" where
  "csv_document records = writerow [''hour'', ''event_type'', ''total_events''] @ csv_rows records"

definition output_path :: "datetime \<Rightarrow> string" where
  "output_path h =
     (let year = strftime_Y h; month = strftime_m h; day = strftime_d h;
          hour_str = strftime_H h
      in ''summaries/'' @ year @ ''/'' @ month @ ''/'' @ day @ ''/hour='' @ hour_str
         @ ''/summary.csv'')"

text \<open>
  \<^verbatim>\<open>write_hourly_csv_summaries\<close>: the records are grouped by hour, then every group is
  uploaded. The result is the list of uploads in the order they are made.
\<close>

definition group_by_hour ::
  "scalar aggregate_record list \<Rightarrow> (datetime \<times> scalar aggregate_record list) list" where
  "group_by_hour aggregated_results =
     foldl (\<lambda>records_by_hour record.
              setdefault_append dt_eq records_by_hour (hour record) record)
       [] aggregated_results"

definition write_hourly_csv_summaries ::
  "scalar aggregate_record list \<Rightarrow> string \<Rightarrow> upload list" where
  "write_hourly_csv_summaries aggregated_results output_bucket =
     map (\<lambda>(hour, records).
            \<lparr>bucket = output_bucket, path = output_path hour, data = csv_document records,
             content_type = ''text/csv''\<rparr>)
       (group_by_hour aggregated_results)"

section \<open>Eligibility filter\<close>

text \<open>
  An instant is a number of microseconds since 0001-01-01T00:00:00 UTC. An aware
  \<^verbatim>\<open>datetime\<close> in UTC holds the instants from \<^verbatim>\<open>datetime.min\<close>, which is 0, to \<^verbatim>\<open>datetime.max\<close>,
  the last microsecond of the year 9999.

  A stored object as the listing returns it: its name, the instant of its last
  modification (the store reports it as an aware datetime), and the bytes a download of
  it returns.
\<close>

definition datetime_max :: int where
  "datetime_max = 3652059 * 86400000000 - 1"

definition is_datetime :: "int \<Rightarrow> bool" where
  "is_datetime t = (0 \<le> t \<and> t \<le> datetime_max)"

type_synonym bytes = "char list"

record blob =
  name :: string
  updated :: int
  download_as_bytes :: bytes

text \<open>\<^verbatim>\<open>s.endswith(suffix)\<close>\<close>

definition endswith :: "string \<Rightarrow> string \<Rightarrow> bool" where
  "endswith s suffix =
     (length suffix \<le> length s \<and> drop (length s - length suffix) s = suffix)"

text \<open>
  \<^verbatim>\<open>timedelta(hours=h)\<close>, in microseconds. A \<^verbatim>\<open>timedelta\<close> holds at most 999999999 days, in
  either direction; its days are \<open>h div 24\<close>.
\<close>

definition timedelta_hours :: "int \<Rightarrow> error + int" where
  "timedelta_hours h =
     (if - 999999999 \<le> h div 24 \<and> h div 24 \<le> 999999999 then Inr (h * 3600000000)
      else Inl OverflowError)"

text \<open>
  \<^verbatim>\<open>t - delta\<close> for an aware datetime in UTC and a \<^verbatim>\<open>timedelta\<close>: the result has to be a
  \<^verbatim>\<open>datetime\<close> again.
\<close>

definition datetime_sub :: "int \<Rightarrow> int \<Rightarrow> error + int" where
  "datetime_sub t delta = (if is_datetime (t - delta) then Inr (t - delta) else Inl OverflowError)"

text \<open>The loop over the listing; each \<^verbatim>\<open>continue\<close> goes on with the next blob.\<close>

fun eligible_loop :: "int \<Rightarrow> blob list \<Rightarrow> blob list \<Rightarrow> blob list" where
  "eligible_loop cutoff_time eligible_files [] = eligible_files"
| "eligible_loop cutoff_time eligible_files (blob # blobs) =
     (if \<not> endswith (name blob) ''.json'' then eligible_loop cutoff_time eligible_files blobs
      else if updated blob \<ge> cutoff_time then eligible_loop cutoff_time eligible_files blobs
      else eligible_loop cutoff_time (eligible_files @ [blob]) blobs)"

text \<open>
  \<open>now\<close> is the reading of \<^verbatim>\<open>datetime.now(timezone.utc)\<close>, \<open>list_blobs\<close> the listing of a
  bucket under a prefix. The cutoff is computed before the bucket is listed; an
  \<^verbatim>\<open>OverflowError\<close> of that computation ends the function.
\<close>

definition list_eligible_json_files ::
  "int \<Rightarrow> (string \<Rightarrow> string \<Rightarrow> blob list) \<Rightarrow> string \<Rightarrow> string \<Rightarrow> int
     \<Rightarrow> error + blob list" where
  "list_eligible_json_files now list_blobs bucket_name prefix lookback_hours =
     (case timedelta_hours lookback_hours of
        Inl e \<Rightarrow> Inl e
      | Inr delta \<Rightarrow>
          (case datetime_sub now delta of
             Inl e \<Rightarrow> Inl e
           | Inr cutoff_time \<Rightarrow> Inr (eligible_loop cutoff_time [] (list_blobs bucket_name prefix))))"

section \<open>Event parser\<close>

text \<open>
  \<^verbatim>\<open>data.decode("utf-8")\<close> and \<^verbatim>\<open>json.loads\<close> are library functions; they are parameters
  here, \<open>None\<close> being their \<^verbatim>\<open>UnicodeDecodeError\<close> and \<^verbatim>\<open>JSONDecodeError\<close>. \<open>'s\<close> is the type
  of the decoded text.
\<close>

fun parse_loop ::
  "(bytes \<Rightarrow> 's option) \<Rightarrow> ('s \<Rightarrow> json option) \<Rightarrow> json list \<Rightarrow> blob list \<Rightarrow> error + json list" where
  "parse_loop decode loads all_events [] = Inr all_events"
| "parse_loop decode loads all_events (blob # blobs) =
     (case decode (download_as_bytes blob) of
        None \<Rightarrow> Inl UnicodeDecodeError
      | Some content \<Rightarrow>
          (case loads content of
             None \<Rightarrow> Inl JSONDecodeError
           | Some (JArray events) \<Rightarrow>
               parse_loop decode loads (foldl (\<lambda>acc event. acc @ [event]) all_events events) blobs
           | Some _ \<Rightarrow> Inl (ValueError_ExpectedArray (name blob))))"

definition download_and_parse_events ::
  "(bytes \<Rightarrow> 's option) \<Rightarrow> ('s \<Rightarrow> json option) \<Rightarrow> blob list \<Rightarrow> error + json list" where
  "download_and_parse_events decode loads blobs = parse_loop decode loads [] blobs"

section \<open>Configuration and the job\<close>

text \<open>
  \<open>environ\<close> is the environment of the process. \<^verbatim>\<open>os.getenv(name, default)\<close> is the value
  of the variable, or the default when it is not set. (The parameters \<^verbatim>\<open>name\<close> and \<^verbatim>\<open>default\<close>
  are \<open>var\<close> and \<open>dflt\<close> here.)
\<close>

definition get_env_var ::
  "(string \<rightharpoonup> string) \<Rightarrow> string \<Rightarrow> bool \<Rightarrow> string option \<Rightarrow> error + string option" where
  "get_env_var environ var required dflt =
     (let val = (case environ var of None \<Rightarrow> dflt | Some v \<Rightarrow> Some v)
      in if required \<and> val = None then Inl (RuntimeError_MissingEnv var) else Inr val)"

text \<open>
  \<^verbatim>\<open>int(s)\<close> for a string: white space around it is dropped, then come an optional sign
  and decimal digits, where single underscores may stand between digits; anything else is
  the \<^verbatim>\<open>ValueError\<close> of an invalid literal. White space is, for \<^verbatim>\<open>int\<close>, the characters tab,
  line feed, vertical tab, form feed, carriage return and space, and the white space
  outside ASCII, of which U+0085 and U+00A0 are below 256. (The characters U+001C to
  U+001F, which \<^verbatim>\<open>str.strip\<close> drops, are not white space for \<^verbatim>\<open>int\<close>.) A literal of more than
  4300 digits is refused with a \<^verbatim>\<open>ValueError\<close> of its own, whatever follows it.
\<close>

definition is_space :: "char \<Rightarrow> bool" where
  "is_space c =
     (let n = (of_char c :: int) in (9 \<le> n \<and> n \<le> 13) \<or> n = 32 \<or> n = 133 \<or> n = 160)"

definition strip :: "string \<Rightarrow> string" where
  "strip s = rev (dropWhile is_space (rev (dropWhile is_space s)))"

text \<open>Digits with single underscores between them: the digits, or \<open>None\<close>.\<close>

fun digit_groups :: "string \<Rightarrow> string option" where
  "digit_groups [] = None"
| "digit_groups [c] = (if is_digit c then Some [c] else None)"
| "digit_groups (c # d # cs) =
     (if is_digit c then
        (if d = CHR ''_'' then map_option ((#) c) (digit_groups cs)
         else map_option ((#) c) (digit_groups (d # cs)))
      else None)"

definition py_int :: "string \<Rightarrow> error + int" where
  "py_int s =
     (let body = strip s;
          negative = (take 1 body = ''-'');
          unsigned = (if take 1 body = ''-'' \<or> take 1 body = ''+'' then drop 1 body else body);
          literal = takeWhile (\<lambda>c. is_digit c \<or> c = CHR ''_'') unsigned;
          rest = dropWhile (\<lambda>c. is_digit c \<or> c = CHR ''_'') unsigned
      in case digit_groups literal of
           None \<Rightarrow> Inl (ValueError_InvalidLiteral s)
         | Some ds \<Rightarrow>
             if length ds > 4300 then Inl ValueError_ExceedsLimit
             else if rest \<noteq> [] then Inl (ValueError_InvalidLiteral s)
             else Inr (if negative then - digits_value ds else digits_value ds))"

record config =
  input_bucket :: string
  output_bucket :: string
  input_prefix :: string
  lookback_hours :: int

text \<open>
  The first four statements of \<^verbatim>\<open>main\<close>. Every call of \<^verbatim>\<open>get_env_var\<close> there is with
  \<^verbatim>\<open>required=True\<close>, so none returns \<^verbatim>\<open>None\<close>; \<^verbatim>\<open>int(None)\<close> would be a \<^verbatim>\<open>TypeError\<close>.
\<close>

definition required_var :: "(string \<rightharpoonup> string) \<Rightarrow> string \<Rightarrow> string option \<Rightarrow> error + string" where
  "required_var environ var dflt =
     (case get_env_var environ var True dflt of
        Inl e \<Rightarrow> Inl e
      | Inr None \<Rightarrow> Inl TypeError
      | Inr (Some v) \<Rightarrow> Inr v)"

definition load_config :: "(string \<rightharpoonup> string) \<Rightarrow> error + config" where
  "load_config environ =
     (case required_var environ ''INPUT_BUCKET'' None of
        Inl e \<Rightarrow> Inl e
      | Inr bucket_in \<Rightarrow>
     (case required_var environ ''OUTPUT_BUCKET'' None of
        Inl e \<Rightarrow> Inl e
      | Inr bucket_out \<Rightarrow>
     (case required_var environ ''INPUT_PREFIX'' (Some ''events/'') of
        Inl e \<Rightarrow> Inl e
      | Inr prefix \<Rightarrow>
     (case required_var environ ''LOOKBACK_HOURS'' (Some ''24'') of
        Inl e \<Rightarrow> Inl e
      | Inr s \<Rightarrow>
     (case py_int s of
        Inl e \<Rightarrow> Inl e
      | Inr hours \<Rightarrow>
          Inr \<lparr>input_bucket = bucket_in, output_bucket = bucket_out,
               input_prefix = prefix, lookback_hours = hours\<rparr>)))))"

text \<open>
  What the job sees of the world: the environment, the clock, and the listing of the
  store.
\<close>

record world =
  environ :: "string \<rightharpoonup> string"
  now :: int
  list_blobs :: "string \<Rightarrow> string \<Rightarrow> blob list"

text \<open>\<^verbatim>\<open>"%s" % v\<close> for a hashable JSON value.\<close>

definition str_scalar :: "scalar \<Rightarrow> string" where
  "str_scalar v =
     (case v of PNone \<Rightarrow> ''None'' | PBool b \<Rightarrow> str_bool b | PInt i \<Rightarrow> str_int i | PStr s \<Rightarrow> s)"

definition record_line :: "scalar aggregate_record \<Rightarrow> string" where
  "record_line r =
     ''Hour='' @ str_datetime (hour r) @ '' | Type='' @ str_scalar (event_type r)
     @ '' | Count='' @ str_int (total_events r)"

text \<open>
  \<^verbatim>\<open>main\<close>. The result is the list of lines that \<^verbatim>\<open>main\<close> itself logs, in order, and either
  the error that ended the run or the uploads made. (The lines that the stages log are
  left out; they change no result.)
\<close>

definition main ::
  "(bytes \<Rightarrow> 's option) \<Rightarrow> ('s \<Rightarrow> json option) \<Rightarrow> world \<Rightarrow> string list \<times> (error + upload list)" where
  "main decode loads w =
     (let log0 = [''Cloud Run Job started'']
      in case load_config (environ w) of
           Inl e \<Rightarrow> (log0, Inl e)
         | Inr cfg \<Rightarrow>
     (let log1 = log0 @ [''Configuration loaded:'',
                         ''INPUT_BUCKET='' @ input_bucket cfg,
                         ''OUTPUT_BUCKET='' @ output_bucket cfg,
                         ''INPUT_PREFIX='' @ input_prefix cfg,
                         ''LOOKBACK_HOURS='' @ str_int (lookback_hours cfg)]
      in case list_eligible_json_files (now w) (list_blobs w)
                (input_bucket cfg) (input_prefix cfg) (lookback_hours cfg) of
           Inl e \<Rightarrow> (log1, Inl e)
         | Inr eligible_files \<Rightarrow>
     (let log2 = log1 @ [''Job finished file discovery phase'']
      in if eligible_files = [] then
           (log2 @ [''No eligible files to process. Exiting job.''], Inr [])
         else
     (case download_and_parse_events decode loads eligible_files of
        Inl e \<Rightarrow> (log2, Inl e)
      | Inr events \<Rightarrow>
     (let log3 = log2 @ [''Job finished JSON parsing phase'']
      in case normalize_events events of
           Inl e \<Rightarrow> (log3, Inl e)
         | Inr normalized_events \<Rightarrow>
     (let log4 = log3 @ [''Job finished event normalization phase'']
      in case aggregate_events normalized_events of
           Inl e \<Rightarrow> (log4, Inl e)
         | Inr aggregated_results \<Rightarrow>
     (let log5 = log4 @ map record_line aggregated_results
                   @ [''Job finished aggregation phase''];
          uploads = write_hourly_csv_summaries aggregated_results (output_bucket cfg)
      in (log5 @ [''Job finished CSV writing phase'',
                  ''Cloud Run Job completed successfully''], Inr uploads))))))))"

section \<open>Notions used to state the properties\<close>

text \<open>A JSON value that can be part of a dict key.\<close>

definition hashable :: "json \<Rightarrow> bool" where
  "hashable v = (case v of Scalar _ \<Rightarrow> True | _ \<Rightarrow> False)"

text \<open>The tuple \<^verbatim>\<open>(record["hour"], record["event_type"])\<close> of a normalized event.\<close>

definition key_of :: "json normalized_event \<Rightarrow> datetime \<times> scalar" where
  "key_of e = (hour e, (case event_type e of Scalar t \<Rightarrow> t | _ \<Rightarrow> PNone))"

text \<open>
  The key of a normalized event and of an aggregate record as \<^verbatim>\<open>==\<close> sees it: two events
  share a key when their \<open>event_key\<close> is the same.
\<close>

definition event_key :: "json normalized_event \<Rightarrow> ((int + int) \<times> scalar) option" where
  "event_key e = (case event_type e of Scalar t \<Rightarrow> Some (key_nf (hour e, t)) | _ \<Rightarrow> None)"

definition record_key :: "scalar aggregate_record \<Rightarrow> (int + int) \<times> scalar" where
  "record_key r = key_nf (hour r, event_type r)"

text \<open>An aggregate record as \<^verbatim>\<open>==\<close> sees it: its key and its count.\<close>

definition record_nf :: "scalar aggregate_record \<Rightarrow> ((int + int) \<times> scalar) \<times> int" where
  "record_nf r = (record_key r, total_events r)"

text \<open>The sum of the counts that a dict holds for the keys of one class.\<close>

definition mass :: "('k \<Rightarrow> 'c) \<Rightarrow> 'c \<Rightarrow> ('k \<times> int) list \<Rightarrow> int" where
  "mass f c d = sum_list (map snd (filter (\<lambda>kv. f (fst kv) = c) d))"

definition make_record :: "(datetime \<times> scalar) \<times> int \<Rightarrow> scalar aggregate_record" where
  "make_record = (\<lambda>((hour, event_type), total).
                 \<lparr>hour = hour, event_type = event_type, total_events = total\<rparr>)"

text \<open>
  What one file gives: the elements of the JSON array it holds, or \<open>None\<close> when its bytes do
  not decode, its text does not parse or the value parsed is not an array; and the error
  of the file in that case.
\<close>

definition file_array ::
  "(bytes \<Rightarrow> 's option) \<Rightarrow> ('s \<Rightarrow> json option) \<Rightarrow> blob \<Rightarrow> json list option" where
  "file_array decode loads blob =
     (case decode (download_as_bytes blob) of
        None \<Rightarrow> None
      | Some content \<Rightarrow> (case loads content of Some (JArray events) \<Rightarrow> Some events | _ \<Rightarrow> None))"

definition file_error ::
  "(bytes \<Rightarrow> 's option) \<Rightarrow> ('s \<Rightarrow> json option) \<Rightarrow> blob \<Rightarrow> error" where
  "file_error decode loads blob =
     (case decode (download_as_bytes blob) of
        None \<Rightarrow> UnicodeDecodeError
      | Some content \<Rightarrow>
          (case loads content of
             None \<Rightarrow> JSONDecodeError
           | Some _ \<Rightarrow> ValueError_ExpectedArray (name blob)))"




section \<open>Examples\<close>

text \<open>Three normalized events of one hour, and the same events in another order.\<close>

definition example_events :: "json normalized_event list" where
  "example_events =
     [\<lparr>hour = \<lparr>year = 2024, month = 3, day = 1, hour_of_day = 13, minute = 0, second = 0,
              microsecond = 0, tzinfo = Some 0\<rparr>, event_type = Scalar (PStr ''click'')\<rparr>,
      \<lparr>hour = \<lparr>year = 2024, month = 3, day = 1, hour_of_day = 13, minute = 0, second = 0,
              microsecond = 0, tzinfo = Some 0\<rparr>, event_type = Scalar (PStr ''view'')\<rparr>,
      \<lparr>hour = \<lparr>year = 2024, month = 3, day = 1, hour_of_day = 13, minute = 0, second = 0,
              microsecond = 0, tzinfo = Some 0\<rparr>, event_type = Scalar (PStr ''click'')\<rparr>]"

definition example_events_permuted :: "json normalized_event list" where
  "example_events_permuted = [example_events ! 1, example_events ! 2, example_events ! 0]"

text \<open>
  A decoder and a JSON reader for the examples: the decoder takes ASCII bytes as they are
  and refuses every other byte, the reader knows three texts. Then files of the store.
\<close>

definition ascii_decode :: "bytes \<Rightarrow> string option" where
  "ascii_decode bs = (if list_all (\<lambda>c. (of_char c :: int) < 128) bs then Some bs else None)"

definition toy_loads :: "string \<Rightarrow> json option" where
  "toy_loads s =
     (if s = ''[1, 2]'' then Some (JArray [Scalar (PInt 1), Scalar (PInt 2)])
      else if s = ''[3]'' then Some (JArray [Scalar (PInt 3)])
      else if s = ''{}'' then Some (JObject [])
      else None)"

definition file_a :: blob where
  "file_a = \<lparr>name = ''events/a.json'', updated = 0, download_as_bytes = ''[1, 2]''\<rparr>"

definition file_b :: blob where
  "file_b = \<lparr>name = ''events/b.json'', updated = 0, download_as_bytes = ''[3]''\<rparr>"

definition file_object :: blob where
  "file_object = \<lparr>name = ''events/c.json'', updated = 0, download_as_bytes = ''{}''\<rparr>"

definition file_not_json :: blob where
  "file_not_json = \<lparr>name = ''events/d.json'', updated = 0, download_as_bytes = ''[1,''\<rparr>"

definition file_not_utf8 :: blob where
  "file_not_utf8 = \<lparr>name = ''events/e.json'', updated = 0, download_as_bytes = [CHR 0xFF]\<rparr>"



text \<open>
  A clock reading, 2023-11-14T22:13:20 UTC, and a listing: two files modified two days
  before it, one modified exactly 24 hours before it, one modified a second before it,
  and two old objects whose names do not end with \<^verbatim>\<open>.json\<close>.
\<close>

definition example_now :: int where
  "example_now = 63835596800000000"

definition example_listing :: "blob list" where
  "example_listing =
     [\<lparr>name = ''events/old1.json'', updated = 63835424000000000, download_as_bytes = ''[1, 2]''\<rparr>,
      \<lparr>name = ''events/edge.json'', updated = 63835510400000000, download_as_bytes = ''[3]''\<rparr>,
      \<lparr>name = ''events/OLD.JSON'', updated = 63835424000000000, download_as_bytes = ''[3]''\<rparr>,
      \<lparr>name = ''events/new.json'', updated = 63835596799000000, download_as_bytes = ''[3]''\<rparr>,
      \<lparr>name = ''events/json'', updated = 63835424000000000, download_as_bytes = ''[3]''\<rparr>,
      \<lparr>name = ''events/old2.json'', updated = 63835424000000000, download_as_bytes = ''[3]''\<rparr>]"

text \<open>Environments, and a world whose listing holds no eligible file.\<close>

definition env_defaults :: "string \<rightharpoonup> string" where
  "env_defaults = [''INPUT_BUCKET'' \<mapsto> ''in'', ''OUTPUT_BUCKET'' \<mapsto> ''out'']"

definition env_negative :: "string \<rightharpoonup> string" where
  "env_negative = [''INPUT_BUCKET'' \<mapsto> ''in'', ''OUTPUT_BUCKET'' \<mapsto> ''out'',
                   ''LOOKBACK_HOURS'' \<mapsto> ''-5'']"

definition env_fraction :: "string \<rightharpoonup> string" where
  "env_fraction = [''INPUT_BUCKET'' \<mapsto> ''in'', ''OUTPUT_BUCKET'' \<mapsto> ''out'',
                   ''LOOKBACK_HOURS'' \<mapsto> ''2.5'']"

definition env_no_output :: "string \<rightharpoonup> string" where
  "env_no_output = [''INPUT_BUCKET'' \<mapsto> ''in'', ''LOOKBACK_HOURS'' \<mapsto> ''24'']"

definition example_world :: world where
  "example_world =
     \<lparr>environ = env_defaults,
      now = 63835596800000000,
      list_blobs = (\<lambda>bucket_name prefix.
        [\<lparr>name = ''events/new.json'', updated = 63835596799000000, download_as_bytes = ''[3]''\<rparr>,
         \<lparr>name = ''events/readme.txt'', updated = 0, download_as_bytes = ''[3]''\<rparr>])\<rparr>"

definition example_config :: config where
  "example_config = \<lparr>input_bucket = ''in'', output_bucket = ''out'', input_prefix = ''events/'',
                      lookback_hours = 24\<rparr>"

section \<open>Normalizer: properties\<close>

lemma normalize_loop_append:
  "normalize_loop acc (xs @ ys) =
     (case normalize_loop acc xs of Inl e \<Rightarrow> Inl e | Inr acc' \<Rightarrow> normalize_loop acc' ys)"
  by (induction xs arbitrary: acc) (auto simp: Let_def split: sum.splits)

text \<open>
  Every hour that the normalizer emits is on an hour boundary of its own wall clock, and
  it keeps the offset of the timestamp it came from.
\<close>

lemma truncate_to_hour_fields:
  "minute (truncate_to_hour ts) = 0 \<and> second (truncate_to_hour ts) = 0
   \<and> microsecond (truncate_to_hour ts) = 0 \<and> tzinfo (truncate_to_hour ts) = tzinfo ts
   \<and> hour_of_day (truncate_to_hour ts) = hour_of_day ts \<and> day (truncate_to_hour ts) = day ts
   \<and> month (truncate_to_hour ts) = month ts \<and> year (truncate_to_hour ts) = year ts"
  by (simp add: truncate_to_hour_def)

lemma normalize_loop_truncated:
  assumes "normalize_loop acc events = Inr out"
    and "list_all (\<lambda>e. minute (hour e) = 0 \<and> second (hour e) = 0 \<and> microsecond (hour e) = 0) acc"
  shows "list_all (\<lambda>e. minute (hour e) = 0 \<and> second (hour e) = 0 \<and> microsecond (hour e) = 0) out"
  using assms
  by (induction events arbitrary: acc)
     (auto simp: Let_def truncate_to_hour_fields split: sum.splits)

lemma normalize_events_truncated:
  "normalize_events events = Inr out \<Longrightarrow>
   list_all (\<lambda>e. minute (hour e) = 0 \<and> second (hour e) = 0 \<and> microsecond (hour e) = 0) out"
  unfolding normalize_events_def by (erule normalize_loop_truncated) simp

text \<open>
  The first event whose timestamp cannot be read ends the run with the \<^verbatim>\<open>ValueError\<close> that
  names it; nothing of the events before it is returned.
\<close>

lemma normalize_events_bad_timestamp:
  assumes "normalize_events pre = Inr out" and "parse_event_timestamp event = Inl e"
  shows "normalize_events (pre @ event # post) = Inl (ValueError_InvalidTimestamp event)"
  using assms by (simp add: normalize_events_def normalize_loop_append)

text \<open>
  A missing \<^verbatim>\<open>event_timestamp\<close>, a timestamp that is not a string and a string that does not
  parse are such events.
\<close>

lemma parse_event_timestamp_errors:
  "map_of items ''event_timestamp'' = None \<Longrightarrow>
     parse_event_timestamp (JObject items) = Inl (KeyError ''event_timestamp'')"
  "map_of items ''event_timestamp'' = Some (Scalar (PStr s)) \<Longrightarrow> fromisoformat (replace_Z s) = None \<Longrightarrow>
     parse_event_timestamp (JObject items) = Inl (ValueError_InvalidIsoformat (replace_Z s))"
  by (simp_all add: parse_event_timestamp_def getitem_def)

lemma normalize_loop_shape:
  assumes "normalize_loop acc events = Inr out"
  shows "\<exists>new. out = acc @ new
           \<and> list_all2 (\<lambda>event e. \<exists>ts. parse_event_timestamp event = Inr ts
                    \<and> hour e = ts\<lparr>minute := 0, second := 0, microsecond := 0\<rparr>
                    \<and> getitem event ''event_type'' = Inr (event_type e)) events new"
  using assms
proof (induction events arbitrary: acc)
  case Nil
  then show ?case by simp
next
  case (Cons event events)
  from Cons.prems obtain ts t where
    ts: "parse_event_timestamp event = Inr ts" and t: "getitem event ''event_type'' = Inr t"
    and rest: "normalize_loop (acc @ [\<lparr>hour = truncate_to_hour ts, event_type = t\<rparr>]) events = Inr out"
    by (auto simp: Let_def split: sum.splits)
  from Cons.IH [OF rest] obtain new where
    "out = (acc @ [\<lparr>hour = truncate_to_hour ts, event_type = t\<rparr>]) @ new"
    "list_all2 (\<lambda>event e. \<exists>ts. parse_event_timestamp event = Inr ts
                    \<and> hour e = ts\<lparr>minute := 0, second := 0, microsecond := 0\<rparr>
                    \<and> getitem event ''event_type'' = Inr (event_type e)) events new"
    by (elim exE conjE) (rule that)
  then show ?case
    using ts t
    by (intro exI [of _ "\<lparr>hour = truncate_to_hour ts, event_type = t\<rparr> # new"])
       (simp add: truncate_to_hour_def)
qed

text \<open>
  What the normalizer does emit. When it returns, it returns one record for each event, in
  order: the hour is the parsed timestamp with minute, second and microsecond set to 0, its
  date, hour and offset kept, and the event type is the value of \<^verbatim>\<open>event["event_type"]\<close>. So
  \<open>minute\<close>, \<open>second\<close> and \<open>microsecond\<close> of every emitted hour are 0.
\<close>

theorem normalize_events_hours:
  assumes "normalize_events events = Inr out"
  shows "list_all2 (\<lambda>event e. \<exists>ts. parse_event_timestamp event = Inr ts
                    \<and> hour e = ts\<lparr>minute := 0, second := 0, microsecond := 0\<rparr>
                    \<and> getitem event ''event_type'' = Inr (event_type e)) events out
       \<and> list_all (\<lambda>e. minute (hour e) = 0 \<and> second (hour e) = 0 \<and> microsecond (hour e) = 0) out"
  using normalize_loop_shape [of "[]" events out] normalize_events_truncated [of events out] assms
  by (simp add: normalize_events_def)

theorem normalize_events_hours_witness:
  "normalize_events
     [JObject [(''event_timestamp'', Scalar (PStr ''2024-03-01T13:47:22Z'')),
               (''event_type'', Scalar (PStr ''click''))]]
   = Inr [\<lparr>hour = \<lparr>year = 2024, month = 3, day = 1, hour_of_day = 13, minute = 0, second = 0,
                    microsecond = 0, tzinfo = Some 0\<rparr>,
           event_type = Scalar (PStr ''click'')\<rparr>]
   \<and> list_all (\<lambda>e. minute (hour e) = 0 \<and> second (hour e) = 0 \<and> microsecond (hour e) = 0)
        [\<lparr>hour = \<lparr>year = 2024, month = 3, day = 1, hour_of_day = 13, minute = 0, second = 0,
                    microsecond = 0, tzinfo = Some 0\<rparr>,
           event_type = Scalar (PStr ''click'')\<rparr>]"
proof -
  have e: "normalize_events
     [JObject [(''event_timestamp'', Scalar (PStr ''2024-03-01T13:47:22Z'')),
               (''event_type'', Scalar (PStr ''click''))]]
   = Inr [\<lparr>hour = \<lparr>year = 2024, month = 3, day = 1, hour_of_day = 13, minute = 0, second = 0,
                    microsecond = 0, tzinfo = Some 0\<rparr>,
           event_type = Scalar (PStr ''click'')\<rparr>]"
    by code_simp
  from normalize_events_hours [OF e] e show ?thesis by blast
qed

text \<open>
  When the normalizer raises its \<^verbatim>\<open>ValueError\<close>. The first event that has no
  \<^verbatim>\<open>event_timestamp\<close>, or one that is not a string, or one that \<^verbatim>\<open>fromisoformat\<close> refuses, or
  that is no dict at all, ends the run with the \<^verbatim>\<open>ValueError\<close> that names the event, whatever
  follows it; the records of the events before it are not returned.
\<close>

theorem normalize_events_invalid_timestamp:
  assumes "normalize_events pre = Inr out"
  shows "(map_of items ''event_timestamp'' = None \<longrightarrow>
            normalize_events (pre @ JObject items # post)
              = Inl (ValueError_InvalidTimestamp (JObject items)))
       \<and> (\<forall>s. map_of items ''event_timestamp'' = Some (Scalar (PStr s))
              \<and> fromisoformat (replace_Z s) = None \<longrightarrow>
            normalize_events (pre @ JObject items # post)
              = Inl (ValueError_InvalidTimestamp (JObject items)))
       \<and> (\<forall>v. map_of items ''event_timestamp'' = Some v \<and> (\<forall>s. v \<noteq> Scalar (PStr s)) \<longrightarrow>
            normalize_events (pre @ JObject items # post)
              = Inl (ValueError_InvalidTimestamp (JObject items)))
       \<and> ((\<forall>its. event \<noteq> JObject its) \<longrightarrow>
            normalize_events (pre @ event # post) = Inl (ValueError_InvalidTimestamp event))"
proof -
  have bad: "normalize_events (pre @ ev # post) = Inl (ValueError_InvalidTimestamp ev)"
    if "parse_event_timestamp ev = Inl e" for ev e
    using assms that by (rule normalize_events_bad_timestamp)
  have a: "map_of items ''event_timestamp'' = None \<Longrightarrow>
            \<exists>e. parse_event_timestamp (JObject items) = Inl e"
    by (simp add: parse_event_timestamp_def getitem_def)
  have b: "map_of items ''event_timestamp'' = Some (Scalar (PStr s)) \<Longrightarrow>
            fromisoformat (replace_Z s) = None \<Longrightarrow>
            \<exists>e. parse_event_timestamp (JObject items) = Inl e" for s
    by (simp add: parse_event_timestamp_def getitem_def)
  have c: "map_of items ''event_timestamp'' = Some v \<Longrightarrow> (\<forall>s. v \<noteq> Scalar (PStr s)) \<Longrightarrow>
            \<exists>e. parse_event_timestamp (JObject items) = Inl e" for v
    by (cases v) (auto simp: parse_event_timestamp_def getitem_def split: scalar.splits)
  have d: "(\<forall>its. event \<noteq> JObject its) \<Longrightarrow> \<exists>e. parse_event_timestamp event = Inl e"
    by (cases event) (auto simp: parse_event_timestamp_def getitem_def)
  show ?thesis
    using a b c d bad by blast
qed

theorem normalize_events_invalid_timestamp_witness:
  "normalize_events
     ([JObject [(''event_timestamp'', Scalar (PStr ''2024-03-01T13:47:22Z'')),
                (''event_type'', Scalar (PStr ''click''))]]
      @ JObject [(''event_type'', Scalar (PStr ''click''))] # [])
     = Inl (ValueError_InvalidTimestamp (JObject [(''event_type'', Scalar (PStr ''click''))]))
   \<and> normalize_events
     ([JObject [(''event_timestamp'', Scalar (PStr ''2024-03-01T13:47:22Z'')),
                (''event_type'', Scalar (PStr ''click''))]]
      @ JObject [(''event_timestamp'', Scalar (PStr ''yesterday'')),
                 (''event_type'', Scalar (PStr ''click''))] # [])
     = Inl (ValueError_InvalidTimestamp
              (JObject [(''event_timestamp'', Scalar (PStr ''yesterday'')),
                        (''event_type'', Scalar (PStr ''click''))]))
   \<and> normalize_events
     ([JObject [(''event_timestamp'', Scalar (PStr ''2024-03-01T13:47:22Z'')),
                (''event_type'', Scalar (PStr ''click''))]]
      @ Scalar PNone # [])
     = Inl (ValueError_InvalidTimestamp (Scalar PNone))"
proof -
  have pre: "normalize_events
     [JObject [(''event_timestamp'', Scalar (PStr ''2024-03-01T13:47:22Z'')),
               (''event_type'', Scalar (PStr ''click''))]]
   = Inr [\<lparr>hour = \<lparr>year = 2024, month = 3, day = 1, hour_of_day = 13, minute = 0, second = 0,
                    microsecond = 0, tzinfo = Some 0\<rparr>,
           event_type = Scalar (PStr ''click'')\<rparr>]"
    by code_simp
  have bad: "fromisoformat (replace_Z ''yesterday'') = None"
    by code_simp
  note inv = normalize_events_invalid_timestamp [OF pre, where post = "[]"]
  show ?thesis
    using inv [of "[(''event_type'', Scalar (PStr ''click''))]" "Scalar PNone"]
          inv [of "[(''event_timestamp'', Scalar (PStr ''yesterday'')),
                    (''event_type'', Scalar (PStr ''click''))]" "Scalar PNone"] bad
    by simp
qed

text \<open>
  C1. The claim: for every event with a valid ISO-8601 timestamp, whatever its offset, the
  emitted \<open>hour\<close> is the timestamp converted to UTC and truncated to the start of its hour.
  The code truncates the timestamp in its own offset and never converts it. The event
  with the timestamp \<^verbatim>\<open>2024-03-01T13:47:22+05:30\<close> is 08:17:22 in UTC, so its hour should be
  \<^verbatim>\<open>2024-03-01T08:00:00+00:00\<close>; the normalizer emits \<^verbatim>\<open>2024-03-01T13:00:00+05:30\<close>, which
  carries the offset +05:30 and is the instant 07:30 UTC, a different instant that is not
  on an hour boundary of UTC.
\<close>

theorem normalize_events_keeps_offset:
  "normalize_events
     [JObject [(''event_timestamp'', Scalar (PStr ''2024-03-01T13:47:22+05:30'')),
               (''event_type'', Scalar (PStr ''click''))]]
   = Inr [\<lparr>hour = \<lparr>year = 2024, month = 3, day = 1, hour_of_day = 13, minute = 0, second = 0,
                    microsecond = 0, tzinfo = Some 19800000000\<rparr>,
           event_type = Scalar (PStr ''click'')\<rparr>]
   \<and> \<not> dt_eq \<lparr>year = 2024, month = 3, day = 1, hour_of_day = 13, minute = 0, second = 0,
               microsecond = 0, tzinfo = Some 19800000000\<rparr>
              \<lparr>year = 2024, month = 3, day = 1, hour_of_day = 8, minute = 0, second = 0,
               microsecond = 0, tzinfo = Some 0\<rparr>"
  by code_simp

text \<open>
  C2. The claim: an event with an unparseable or missing \<^verbatim>\<open>event_timestamp\<close>, or with no
  \<^verbatim>\<open>event_type\<close>, ends the run with the ValidationError, and a record that lacks only
  \<^verbatim>\<open>event_type\<close> raises that error and no other. The code reads \<^verbatim>\<open>event["event_type"]\<close> outside
  the \<^verbatim>\<open>try\<close> block: for the event \<^verbatim>\<open>{"event_timestamp": "2024-03-01T13:47:22Z"}\<close> the run ends
  with \<^verbatim>\<open>KeyError('event_type')\<close>, not with the \<^verbatim>\<open>ValueError\<close> that names the record.
\<close>

theorem normalize_events_missing_event_type:
  "normalize_events [JObject [(''event_timestamp'', Scalar (PStr ''2024-03-01T13:47:22Z''))]]
   = Inl (KeyError ''event_type'')"
  by code_simp

section \<open>Aggregator: properties\<close>

lemma key_eq_kernel: "key_eq = (\<lambda>a b. key_nf a = key_nf b)"
  by (intro ext) (simp add: key_eq_def)

lemma dict_incr_keys:
  "map (f \<circ> fst) (dict_incr (\<lambda>a b. f a = f b) d k) =
     (if f k \<in> set (map (f \<circ> fst) d) then map (f \<circ> fst) d else map (f \<circ> fst) d @ [f k])"
  by (induction d) (force split: if_splits)+

lemma dict_incr_total: "sum_list (map snd (dict_incr eq d k)) = sum_list (map snd d) + 1"
  by (induction d) auto

lemma dict_incr_mass:
  "mass f c (dict_incr (\<lambda>a b. f a = f b) d k) = mass f c d + (if f k = c then 1 else 0)"
  by (induction d) (auto simp: mass_def)

lemma dict_incr_positive:
  "list_all (\<lambda>kv. 1 \<le> snd kv) d \<Longrightarrow> list_all (\<lambda>kv. 1 \<le> snd kv) (dict_incr eq d k)"
  by (induction d) auto

lemma foldl_incr_keys_distinct:
  "distinct (map (f \<circ> fst) d) \<Longrightarrow>
   distinct (map (f \<circ> fst) (foldl (dict_incr (\<lambda>a b. f a = f b)) d ks))"
  by (induction ks arbitrary: d) (simp_all del: map_map set_map add: dict_incr_keys)

lemma foldl_incr_keys_set:
  "set (map (f \<circ> fst) (foldl (dict_incr (\<lambda>a b. f a = f b)) d ks))
     = set (map (f \<circ> fst) d) \<union> f ` set ks"
proof (induction ks arbitrary: d)
  case Nil
  then show ?case by simp
next
  case (Cons k ks)
  show ?case
    unfolding foldl_Cons Cons.IH dict_incr_keys by auto
qed

lemma foldl_incr_total:
  "sum_list (map snd (foldl (dict_incr eq) d ks)) = sum_list (map snd d) + int (length ks)"
  by (induction ks arbitrary: d) (simp_all add: dict_incr_total)

lemma foldl_incr_mass:
  "mass f c (foldl (dict_incr (\<lambda>a b. f a = f b)) d ks) =
     mass f c d + int (length (filter (\<lambda>k. f k = c) ks))"
  by (induction ks arbitrary: d) (simp_all add: dict_incr_mass)

lemma foldl_incr_positive:
  "list_all (\<lambda>kv. 1 \<le> snd kv) d \<Longrightarrow> list_all (\<lambda>kv. 1 \<le> snd kv) (foldl (dict_incr eq) d ks)"
  by (induction ks arbitrary: d) (simp_all add: dict_incr_positive)

lemma mass_of_item:
  "distinct (map (f \<circ> fst) d) \<Longrightarrow> (k, n) \<in> set d \<Longrightarrow> mass f (f k) d = n"
proof (induction d)
  case Nil
  then show ?case by simp
next
  case (Cons kv d)
  show ?case
  proof (cases "kv = (k, n)")
    case True
    have "filter (\<lambda>kv. f (fst kv) = f k) d = []"
      using Cons.prems(1) True by (force simp: filter_empty_conv)
    then show ?thesis using True by (simp add: mass_def)
  next
    case False
    then have in_d: "(k, n) \<in> set d" using Cons.prems(2) by simp
    then have "f (fst kv) \<noteq> f k" using Cons.prems(1) by force
    then show ?thesis using Cons.IH in_d Cons.prems(1) by (simp add: mass_def)
  qed
qed

lemma aggregate_loop_hashable:
  "list_all (\<lambda>e. hashable (event_type e)) evs \<Longrightarrow>
   aggregate_loop d evs = Inr (foldl (dict_incr key_eq) d (map key_of evs))"
  by (induction evs arbitrary: d) (auto simp: hashable_def key_of_def split: json.splits)

lemma aggregate_loop_unhashable:
  "\<not> list_all (\<lambda>e. hashable (event_type e)) evs \<Longrightarrow> aggregate_loop d evs = Inl TypeError"
  by (induction evs arbitrary: d) (auto simp: hashable_def split: json.splits)


lemma record_key_make [simp]: "record_key (make_record kv) = key_nf (fst kv)"
  by (cases kv) (auto simp: record_key_def make_record_def)

lemma total_events_make [simp]: "total_events (make_record kv) = snd kv"
  by (cases kv) (auto simp: make_record_def)

lemma event_key_hashable:
  "hashable (event_type e) \<Longrightarrow> event_key e = Some (key_nf (key_of e))"
  by (auto simp: hashable_def event_key_def key_of_def split: json.splits)

lemma aggregate_events_hashable:
  "list_all (\<lambda>e. hashable (event_type e)) evs \<Longrightarrow>
   aggregate_events evs = Inr (map make_record (foldl (dict_incr key_eq) [] (map key_of evs)))"
  by (simp add: aggregate_events_def aggregate_loop_hashable make_record_def)

lemma aggregate_events_unhashable:
  "\<not> list_all (\<lambda>e. hashable (event_type e)) evs \<Longrightarrow> aggregate_events evs = Inl TypeError"
  by (simp add: aggregate_events_def aggregate_loop_unhashable)

lemma count_filter_events:
  assumes "list_all (\<lambda>e. hashable (event_type e)) evs"
  shows "length (filter (\<lambda>k. key_nf k = c) (map key_of evs))
         = length (filter (\<lambda>e. event_key e = Some c) evs)"
proof -
  have "filter (\<lambda>e. key_nf (key_of e) = c) evs = filter (\<lambda>e. event_key e = Some c) evs"
    using assms by (intro filter_cong) (auto simp: list_all_iff event_key_hashable)
  then show ?thesis by (simp add: filter_map comp_def)
qed

text \<open>
  C3. For every list of normalized events whose event types are hashable (strings, in
  particular), the aggregator returns records with no two equal keys \<open>(hour, event_type)\<close>,
  one for every key of the input; the count of a record is the number of input events
  with that key, so it is at least 1; and the counts add up to the number of input
  events.
\<close>

theorem aggregate_events_counts:
  assumes hash: "list_all (\<lambda>e. hashable (event_type e)) evs"
  shows "\<exists>recs. aggregate_events evs = Inr recs
           \<and> distinct (map record_key recs)
           \<and> set (map Some (map record_key recs)) = set (map event_key evs)
           \<and> list_all (\<lambda>r. total_events r
                              = int (length (filter (\<lambda>e. event_key e = Some (record_key r)) evs))
                            \<and> 1 \<le> total_events r) recs
           \<and> sum_list (map total_events recs) = int (length evs)"
proof -
  define d where "d = foldl (dict_incr key_eq) [] (map key_of evs)"
  define recs where "recs = map make_record d"
  have d_alt: "d = foldl (dict_incr (\<lambda>a b. key_nf a = key_nf b)) [] (map key_of evs)"
    by (simp add: d_def key_eq_kernel)
  have res: "aggregate_events evs = Inr recs"
    using hash by (simp add: aggregate_events_hashable d_def recs_def)
  have keys: "map record_key recs = map (key_nf \<circ> fst) d"
    by (simp add: comp_def recs_def)
  have dist: "distinct (map (key_nf \<circ> fst) d)"
    unfolding d_alt by (rule foldl_incr_keys_distinct) simp
  have kset: "set (map (key_nf \<circ> fst) d) = key_nf ` set (map key_of evs)"
    unfolding d_alt foldl_incr_keys_set by simp
  have c1: "distinct (map record_key recs)"
    using dist by (simp only: keys)
  have c2: "set (map Some (map record_key recs)) = set (map event_key evs)"
  proof -
    have "map event_key evs = map (\<lambda>e. Some (key_nf (key_of e))) evs"
      using hash by (intro map_cong) (auto simp: list_all_iff event_key_hashable)
    then have "set (map event_key evs) = Some ` key_nf ` set (map key_of evs)"
      by (simp add: image_image)
    also have "\<dots> = Some ` set (map (key_nf \<circ> fst) d)"
      by (simp only: kset)
    also have "\<dots> = set (map Some (map record_key recs))"
      by (simp only: keys set_map)
    finally show ?thesis by simp
  qed
  have c3: "list_all (\<lambda>r. total_events r
                   = int (length (filter (\<lambda>e. event_key e = Some (record_key r)) evs))
                 \<and> 1 \<le> total_events r) recs"
  proof -
    have pos: "list_all (\<lambda>kv. 1 \<le> snd kv) d"
      unfolding d_def by (rule foldl_incr_positive) simp
    have "snd kv = int (length (filter (\<lambda>e. event_key e = Some (key_nf (fst kv))) evs))"
      if "kv \<in> set d" for kv
    proof -
      have "mass key_nf (key_nf (fst kv)) d = snd kv"
        using mass_of_item [OF dist, of "fst kv" "snd kv"] that by simp
      moreover have "mass key_nf (key_nf (fst kv)) d
            = int (length (filter (\<lambda>k. key_nf k = key_nf (fst kv)) (map key_of evs)))"
        unfolding d_alt foldl_incr_mass by (simp add: mass_def)
      ultimately show ?thesis using count_filter_events [OF hash] by simp
    qed
    then show ?thesis using pos by (simp add: list_all_iff recs_def)
  qed
  have c4: "sum_list (map total_events recs) = int (length evs)"
    unfolding d_def recs_def by (simp add: comp_def foldl_incr_total)
  show ?thesis
    using res c1 c2 c3 c4 by blast
qed

theorem aggregate_events_counts_witness:
  "list_all (\<lambda>e. hashable (event_type e)) example_events
   \<and> (\<exists>recs. aggregate_events example_events = Inr recs
           \<and> distinct (map record_key recs)
           \<and> set (map Some (map record_key recs)) = set (map event_key example_events)
           \<and> list_all (\<lambda>r. total_events r
                = int (length (filter (\<lambda>e. event_key e = Some (record_key r)) example_events))
                            \<and> 1 \<le> total_events r) recs
           \<and> sum_list (map total_events recs) = int (length example_events))"
proof -
  have h: "list_all (\<lambda>e. hashable (event_type e)) example_events"
    by (simp add: example_events_def hashable_def)
  from aggregate_events_counts [OF h] h show ?thesis by simp
qed

lemma dict_incr_raw_keys_list:
  "map fst (dict_incr eq d k) = map fst d \<or> map fst (dict_incr eq d k) = map fst d @ [k]"
  by (induction d) (auto split: if_splits)

lemma dict_incr_raw_keys:
  "set (map fst (dict_incr eq d k)) \<subseteq> set (map fst d) \<union> {k}"
  using dict_incr_raw_keys_list [of eq d k] by (auto simp del: set_map map_map)

lemma foldl_incr_raw_keys:
  "set (map fst (foldl (dict_incr eq) d ks)) \<subseteq> set (map fst d) \<union> set ks"
proof (induction ks arbitrary: d)
  case Nil
  then show ?case by simp
next
  case (Cons k ks)
  from Cons.IH [of "dict_incr eq d k"] dict_incr_raw_keys [of eq d k] show ?case by auto
qed

lemma length_filter_mset:
  "mset xs = mset ys \<Longrightarrow> length (filter P xs) = length (filter P ys)"
  by (metis mset_filter size_mset)

lemma aggregate_events_nf_set:
  assumes hash: "list_all (\<lambda>e. hashable (event_type e)) evs"
  shows "\<exists>recs. aggregate_events evs = Inr recs
           \<and> set (map record_nf recs)
               = (\<lambda>c. (c, int (length (filter (\<lambda>e. key_nf (key_of e) = c) evs))))
                   ` key_nf ` key_of ` set evs
           \<and> (\<lambda>r. (hour r, event_type r)) ` set recs \<subseteq> key_of ` set evs"
proof -
  define d where "d = foldl (dict_incr key_eq) [] (map key_of evs)"
  have d_alt: "d = foldl (dict_incr (\<lambda>a b. key_nf a = key_nf b)) [] (map key_of evs)"
    by (simp add: d_def key_eq_kernel)
  have res: "aggregate_events evs = Inr (map make_record d)"
    using hash by (simp add: aggregate_events_hashable d_def)
  have dist: "distinct (map (key_nf \<circ> fst) d)"
    unfolding d_alt by (rule foldl_incr_keys_distinct) simp
  have kset: "set (map (key_nf \<circ> fst) d) = key_nf ` set (map key_of evs)"
    unfolding d_alt foldl_incr_keys_set by simp
  have cnt: "snd kv = int (length (filter (\<lambda>e. key_nf (key_of e) = key_nf (fst kv)) evs))"
    if "kv \<in> set d" for kv
  proof -
    have "mass key_nf (key_nf (fst kv)) d = snd kv"
      using mass_of_item [OF dist, of "fst kv" "snd kv"] that by simp
    moreover have "mass key_nf (key_nf (fst kv)) d
          = int (length (filter (\<lambda>k. key_nf k = key_nf (fst kv)) (map key_of evs)))"
      unfolding d_alt foldl_incr_mass by (simp add: mass_def)
    ultimately show ?thesis by (simp add: filter_map comp_def)
  qed
  have "set (map record_nf (map make_record d))
          = (\<lambda>kv. (key_nf (fst kv), snd kv)) ` set d"
    by (simp add: record_nf_def image_image)
  also have "\<dots> = (\<lambda>kv. (key_nf (fst kv),
                  int (length (filter (\<lambda>e. key_nf (key_of e) = key_nf (fst kv)) evs)))) ` set d"
    by (intro image_cong refl) (simp add: cnt)
  also have "\<dots> = (\<lambda>c. (c, int (length (filter (\<lambda>e. key_nf (key_of e) = c) evs))))
                   ` (key_nf \<circ> fst) ` set d"
    by (simp add: image_image)
  also have "(key_nf \<circ> fst) ` set d = key_nf ` key_of ` set evs"
    using kset by simp
  finally have nf: "set (map record_nf (map make_record d))
               = (\<lambda>c. (c, int (length (filter (\<lambda>e. key_nf (key_of e) = c) evs))))
                   ` key_nf ` key_of ` set evs" .
  have "set (map fst d) \<subseteq> set (map key_of evs)"
    using foldl_incr_raw_keys [of key_eq "[]" "map key_of evs"] by (simp add: d_def)
  then have "(\<lambda>r. (hour r, event_type r)) ` set (map make_record d) \<subseteq> key_of ` set evs"
    by (auto simp: make_record_def)
  with res nf show ?thesis by blast
qed

lemma record_nf_inj:
  assumes "inj_on key_nf K"
  shows "inj_on record_nf {r :: scalar aggregate_record. (hour r, event_type r) \<in> K}"
proof (rule inj_onI)
  fix r r' :: "scalar aggregate_record"
  assume r: "r \<in> {r. (hour r, event_type r) \<in> K}" and r': "r' \<in> {r. (hour r, event_type r) \<in> K}"
    and eq: "record_nf r = record_nf r'"
  from eq have "key_nf (hour r, event_type r) = key_nf (hour r', event_type r')"
    and t: "total_events r = total_events r'"
    by (simp_all add: record_nf_def record_key_def)
  with assms r r' have "(hour r, event_type r) = (hour r', event_type r')"
    by (auto dest: inj_onD)
  with t show "r = r'" by simp
qed

text \<open>
  C8. The aggregator is a function of the multiset of its input: for two lists that are
  permutations of each other it fails on both or returns on both, and the records returned
  are the same set as \<^verbatim>\<open>==\<close> compares them (the same keys with the same counts). When no two
  different keys of the input are equal for \<^verbatim>\<open>==\<close> (no hour written with two offsets, say),
  the two sets of records are the same outright.
\<close>

theorem aggregate_events_permutation:
  assumes perm: "mset xs = mset ys"
  shows "map_sum id (\<lambda>recs. set (map record_nf recs)) (aggregate_events xs)
           = map_sum id (\<lambda>recs. set (map record_nf recs)) (aggregate_events ys)
       \<and> (inj_on key_nf (key_of ` set xs) \<longrightarrow>
            map_sum id set (aggregate_events xs) = map_sum id set (aggregate_events ys))"
proof (cases "list_all (\<lambda>e. hashable (event_type e)) xs")
  case False
  moreover have "set xs = set ys" using perm by (rule mset_eq_setD)
  ultimately have "\<not> list_all (\<lambda>e. hashable (event_type e)) ys"
    by (simp add: list_all_iff)
  with False show ?thesis by (simp add: aggregate_events_unhashable)
next
  case True
  have sets: "set xs = set ys" using perm by (rule mset_eq_setD)
  then have True': "list_all (\<lambda>e. hashable (event_type e)) ys"
    using True by (simp add: list_all_iff)
  from aggregate_events_nf_set [OF True] obtain rx where
    rx: "aggregate_events xs = Inr rx"
        "set (map record_nf rx)
               = (\<lambda>c. (c, int (length (filter (\<lambda>e. key_nf (key_of e) = c) xs))))
                   ` key_nf ` key_of ` set xs"
        "(\<lambda>r. (hour r, event_type r)) ` set rx \<subseteq> key_of ` set xs"
    by (elim exE conjE) (rule that)
  from aggregate_events_nf_set [OF True'] obtain ry where
    ry: "aggregate_events ys = Inr ry"
        "set (map record_nf ry)
               = (\<lambda>c. (c, int (length (filter (\<lambda>e. key_nf (key_of e) = c) ys))))
                   ` key_nf ` key_of ` set ys"
        "(\<lambda>r. (hour r, event_type r)) ` set ry \<subseteq> key_of ` set ys"
    by (elim exE conjE) (rule that)
  have nf: "set (map record_nf rx) = set (map record_nf ry)"
    unfolding rx(2) ry(2) sets by (simp add: length_filter_mset [OF perm])
  have "set rx = set ry" if inj: "inj_on key_nf (key_of ` set xs)"
  proof -
    let ?S = "{r :: scalar aggregate_record. (hour r, event_type r) \<in> key_of ` set xs}"
    have "inj_on record_nf ?S" using inj by (rule record_nf_inj)
    moreover have "set rx \<subseteq> ?S" using rx(3) by auto
    moreover have "set ry \<subseteq> ?S" using ry(3) sets by auto
    moreover have "record_nf ` set rx = record_nf ` set ry" using nf by simp
    ultimately show ?thesis by (simp add: inj_on_image_eq_iff)
  qed
  with nf rx(1) ry(1) show ?thesis by simp
qed


theorem aggregate_events_permutation_witness:
  "mset example_events = mset example_events_permuted
   \<and> inj_on key_nf (key_of ` set example_events)
   \<and> map_sum id set (aggregate_events example_events)
       = map_sum id set (aggregate_events example_events_permuted)"
proof -
  have p: "mset example_events = mset example_events_permuted"
    by (simp add: example_events_def example_events_permuted_def)
  have i: "inj_on key_nf (key_of ` set example_events)"
    by (rule inj_onI) (auto simp: example_events_def key_of_def key_nf_def scalar_key_def)
  from aggregate_events_permutation [OF p] p i show ?thesis by blast
qed

section \<open>Eligibility filter: properties\<close>

lemma eligible_loop_filter:
  "eligible_loop cutoff_time eligible_files blobs =
     eligible_files @ filter (\<lambda>blob. endswith (name blob) ''.json'' \<and> updated blob < cutoff_time) blobs"
  by (induction blobs arbitrary: eligible_files) auto

lemma endswith_iff: "endswith s suffix = (\<exists>p. s = p @ suffix)"
proof
  assume "endswith s suffix"
  then have "s = take (length s - length suffix) s @ suffix"
    by (metis append_take_drop_id endswith_def)
  then show "\<exists>p. s = p @ suffix" ..
next
  assume "\<exists>p. s = p @ suffix"
  then show "endswith s suffix" by (auto simp: endswith_def)
qed

lemma timedelta_hours_in_range:
  assumes "is_datetime t" and "is_datetime (t - L * 3600000000)"
  shows "timedelta_hours L = Inr (L * 3600000000)"
proof -
  have "- 87649416 \<le> L" and "L \<le> 87649416"
    using assms by (simp_all add: is_datetime_def datetime_max_def)
  then have "- 999999999 \<le> L div 24" and "L div 24 \<le> 999999999"
    by arith+
  then show ?thesis by (simp add: timedelta_hours_def)
qed

text \<open>
  When the cutoff is no datetime (it is before the year 1 or after the year 9999), the
  function raises \<^verbatim>\<open>OverflowError\<close>, whatever the store holds.
\<close>

lemma list_eligible_json_files_overflow:
  assumes "\<not> is_datetime (t - L * 3600000000)"
  shows "list_eligible_json_files t listing bucket_name prefix L = Inl OverflowError"
  using assms
  by (simp add: list_eligible_json_files_def timedelta_hours_def datetime_sub_def)

text \<open>
  C4. For every listing, every clock reading \<open>t\<close> and every lookback window \<open>L\<close> such that \<open>t\<close>
  minus \<open>L\<close> hours is a datetime, the filter returns, in the order of the listing, exactly the
  objects whose name ends with \<^verbatim>\<open>.json\<close> and whose last modification is strictly earlier than
  \<open>t\<close> minus \<open>L\<close> hours. An object modified exactly at the cutoff is left out, so is one whose
  name ends with \<^verbatim>\<open>.JSON\<close>, and an empty listing gives the empty list, not an error.
\<close>

theorem list_eligible_json_files_subset:
  assumes "is_datetime t" and "is_datetime (t - L * 3600000000)"
  shows "list_eligible_json_files t listing bucket_name prefix L
           = Inr (filter (\<lambda>blob. (\<exists>p. name blob = p @ ''.json'')
                                 \<and> updated blob < t - L * 3600000000)
                    (listing bucket_name prefix))
         \<and> list_eligible_json_files t
              (\<lambda>b p. [blob\<lparr>updated := t - L * 3600000000\<rparr>])
              bucket_name prefix L = Inr []
         \<and> list_eligible_json_files t (\<lambda>b p. [blob\<lparr>name := ''events/a.JSON''\<rparr>])
              bucket_name prefix L = Inr []
         \<and> list_eligible_json_files t (\<lambda>b p. []) bucket_name prefix L = Inr []"
  using assms(2)
  by (simp add: list_eligible_json_files_def eligible_loop_filter datetime_sub_def
        timedelta_hours_in_range [OF assms] endswith_iff [symmetric])
     (simp add: endswith_def)

theorem list_eligible_json_files_subset_witness:
  "is_datetime example_now \<and> is_datetime (example_now - 24 * 3600000000)
   \<and> list_eligible_json_files example_now (\<lambda>b p. example_listing) ''in'' ''events/'' 24
       = Inr [example_listing ! 0, example_listing ! 5]"
proof -
  have t: "is_datetime example_now"
    by (simp add: is_datetime_def datetime_max_def example_now_def)
  have c: "is_datetime (example_now - 24 * 3600000000)"
    by (simp add: is_datetime_def datetime_max_def example_now_def)
  have "filter (\<lambda>blob. (\<exists>p. name blob = p @ ''.json'')
                        \<and> updated blob < example_now - 24 * 3600000000) example_listing
        = [example_listing ! 0, example_listing ! 5]"
    by (simp add: endswith_iff [symmetric] endswith_def example_listing_def example_now_def)
  with list_eligible_json_files_subset [OF t c, of "\<lambda>b p. example_listing" "''in''" "''events/''"]
    t c
  show ?thesis by simp
qed

section \<open>Event parser: properties\<close>

lemma foldl_append_each: "foldl (\<lambda>acc event. acc @ [event]) all_events events = all_events @ events"
  by (induction events arbitrary: all_events) auto

lemma parse_loop_Cons:
  "parse_loop decode loads all_events (blob # blobs) =
     (case file_array decode loads blob of
        None \<Rightarrow> Inl (file_error decode loads blob)
      | Some events \<Rightarrow> parse_loop decode loads (all_events @ events) blobs)"
  by (simp add: file_array_def file_error_def foldl_append_each split: option.splits json.splits)

lemma parse_loop_ok:
  "list_all (\<lambda>b. file_array decode loads b \<noteq> None) blobs \<Longrightarrow>
   parse_loop decode loads all_events blobs
     = Inr (all_events @ concat (map (\<lambda>b. the (file_array decode loads b)) blobs))"
proof (induction blobs arbitrary: all_events)
  case Nil
  then show ?case by simp
next
  case (Cons blob blobs)
  then show ?case by (auto simp del: parse_loop.simps simp add: parse_loop_Cons)
qed

lemma parse_loop_append:
  "list_all (\<lambda>b. file_array decode loads b \<noteq> None) pre \<Longrightarrow>
   parse_loop decode loads all_events (pre @ blobs)
     = parse_loop decode loads
         (all_events @ concat (map (\<lambda>b. the (file_array decode loads b)) pre)) blobs"
proof (induction pre arbitrary: all_events)
  case Nil
  then show ?case by simp
next
  case (Cons blob pre)
  then show ?case by (auto simp del: parse_loop.simps simp add: parse_loop_Cons)
qed

lemma parse_loop_fails:
  "\<not> list_all (\<lambda>b. file_array decode loads b \<noteq> None) blobs \<Longrightarrow>
   \<exists>e. parse_loop decode loads all_events blobs = Inl e"
proof (induction blobs arbitrary: all_events)
  case Nil
  then show ?case by simp
next
  case (Cons blob blobs)
  show ?case
  proof (cases "file_array decode loads blob")
    case None
    then show ?thesis by (simp only: parse_loop_Cons option.case) blast
  next
    case (Some events)
    then have "\<not> list_all (\<lambda>b. file_array decode loads b \<noteq> None) blobs"
      using Cons.prems by simp
    from Cons.IH [OF this] show ?thesis using Some by (simp only: parse_loop_Cons option.case)
  qed
qed

lemma example_files:
  "file_array ascii_decode toy_loads file_a = Some [Scalar (PInt 1), Scalar (PInt 2)]"
  "file_array ascii_decode toy_loads file_b = Some [Scalar (PInt 3)]"
  "ascii_decode (download_as_bytes file_not_utf8) = None"
  "ascii_decode (download_as_bytes file_not_json) = Some ''[1,''"
  "toy_loads ''[1,'' = None"
  "ascii_decode (download_as_bytes file_object) = Some ''{}''"
  "toy_loads ''{}'' = Some (JObject [])"
  "name file_object = ''events/c.json''"
  by (simp_all add: file_array_def ascii_decode_def toy_loads_def file_a_def file_b_def
        file_not_utf8_def file_not_json_def file_object_def)

text \<open>
  C7. When every file holds a valid JSON array, the parser returns the elements of all
  arrays as one list: the files in the order given, the elements of a file in their order,
  each file giving as many elements as its array has.
\<close>

theorem download_and_parse_events_concat:
  assumes "list_all (\<lambda>b. file_array decode loads b \<noteq> None) blobs"
  shows "download_and_parse_events decode loads blobs
           = Inr (concat (map (\<lambda>b. the (file_array decode loads b)) blobs))
         \<and> (\<exists>events. download_and_parse_events decode loads blobs = Inr events
              \<and> length events
                  = sum_list (map (\<lambda>b. length (the (file_array decode loads b))) blobs))"
  using assms by (simp add: download_and_parse_events_def parse_loop_ok length_concat comp_def)

theorem download_and_parse_events_concat_witness:
  "list_all (\<lambda>b. file_array ascii_decode toy_loads b \<noteq> None) [file_a, file_b]
   \<and> download_and_parse_events ascii_decode toy_loads [file_a, file_b]
       = Inr [Scalar (PInt 1), Scalar (PInt 2), Scalar (PInt 3)]"
proof -
  have h: "list_all (\<lambda>b. file_array ascii_decode toy_loads b \<noteq> None) [file_a, file_b]"
    by (simp add: example_files)
  from download_and_parse_events_concat [OF h] h show ?thesis
    by (simp add: example_files)
qed

text \<open>
  C5. A file whose bytes are not UTF-8 ends the run with \<^verbatim>\<open>UnicodeDecodeError\<close>, one whose
  text is not JSON with \<^verbatim>\<open>JSONDecodeError\<close>, one whose JSON value is not an array (an object,
  in particular) with the \<^verbatim>\<open>ValueError\<close> that names the file: the first such file decides,
  whatever follows it, and the run returns an error, hence no events at all, exactly when
  some file is such a file.
\<close>

theorem download_and_parse_events_fatal:
  assumes "list_all (\<lambda>b. file_array decode loads b \<noteq> None) pre"
  shows "(decode (download_as_bytes blob) = None \<longrightarrow>
            download_and_parse_events decode loads (pre @ blob # post) = Inl UnicodeDecodeError)
       \<and> (\<forall>content. decode (download_as_bytes blob) = Some content \<and> loads content = None \<longrightarrow>
            download_and_parse_events decode loads (pre @ blob # post) = Inl JSONDecodeError)
       \<and> (\<forall>content v. decode (download_as_bytes blob) = Some content \<and> loads content = Some v
              \<and> (\<forall>events. v \<noteq> JArray events) \<longrightarrow>
            download_and_parse_events decode loads (pre @ blob # post)
              = Inl (ValueError_ExpectedArray (name blob)))
       \<and> (\<forall>content items. decode (download_as_bytes blob) = Some content
              \<and> loads content = Some (JObject items) \<longrightarrow>
            download_and_parse_events decode loads (pre @ blob # post)
              = Inl (ValueError_ExpectedArray (name blob)))
       \<and> ((\<exists>e. download_and_parse_events decode loads blobs = Inl e)
            = (\<not> list_all (\<lambda>b. file_array decode loads b \<noteq> None) blobs))"
proof -
  have iff: "(\<exists>e. download_and_parse_events decode loads blobs = Inl e)
            = (\<not> list_all (\<lambda>b. file_array decode loads b \<noteq> None) blobs)"
    using parse_loop_fails [of decode loads blobs "[]"] parse_loop_ok [of decode loads blobs "[]"]
    by (auto simp: download_and_parse_events_def)
  have step: "download_and_parse_events decode loads (pre @ blob # post)
      = (case file_array decode loads blob of
        None \<Rightarrow> Inl (file_error decode loads blob)
      | Some events \<Rightarrow> parse_loop decode loads
           (concat (map (\<lambda>b. the (file_array decode loads b)) pre) @ events) post)"
    using assms
    by (simp del: parse_loop.simps add: download_and_parse_events_def parse_loop_append parse_loop_Cons)
  have a: "decode (download_as_bytes blob) = None \<Longrightarrow>
            download_and_parse_events decode loads (pre @ blob # post) = Inl UnicodeDecodeError"
    by (simp add: step file_array_def file_error_def)
  have b: "decode (download_as_bytes blob) = Some content \<Longrightarrow> loads content = None \<Longrightarrow>
            download_and_parse_events decode loads (pre @ blob # post) = Inl JSONDecodeError"
    for content
    by (simp add: step file_array_def file_error_def)
  have c: "decode (download_as_bytes blob) = Some content \<Longrightarrow> loads content = Some v \<Longrightarrow>
            (\<forall>events. v \<noteq> JArray events) \<Longrightarrow>
            download_and_parse_events decode loads (pre @ blob # post)
              = Inl (ValueError_ExpectedArray (name blob))"
    for content v
    by (cases v) (simp_all add: step file_array_def file_error_def)
  show ?thesis
    using a b c iff by (intro conjI allI impI) auto
qed

theorem download_and_parse_events_fatal_witness:
  "download_and_parse_events ascii_decode toy_loads [file_a, file_not_utf8, file_b]
     = Inl UnicodeDecodeError
   \<and> download_and_parse_events ascii_decode toy_loads [file_a, file_not_json, file_b]
     = Inl JSONDecodeError
   \<and> download_and_parse_events ascii_decode toy_loads [file_a, file_object, file_b]
     = Inl (ValueError_ExpectedArray ''events/c.json'')"
proof -
  have h: "list_all (\<lambda>b. file_array ascii_decode toy_loads b \<noteq> None) [file_a]"
    by (simp add: example_files)
  note fatal = download_and_parse_events_fatal [OF h, where post = "[file_b]"]
  have "download_and_parse_events ascii_decode toy_loads ([file_a] @ file_not_utf8 # [file_b])
     = Inl UnicodeDecodeError"
    using fatal [of file_not_utf8] by (simp add: example_files)
  moreover have "download_and_parse_events ascii_decode toy_loads ([file_a] @ file_not_json # [file_b])
     = Inl JSONDecodeError"
    using fatal [of file_not_json] by (simp add: example_files)
  moreover have "download_and_parse_events ascii_decode toy_loads ([file_a] @ file_object # [file_b])
     = Inl (ValueError_ExpectedArray ''events/c.json'')"
    using fatal [of file_object] by (simp add: example_files)
  ultimately show ?thesis by simp
qed

section \<open>Partitioned writer: properties\<close>















text \<open>
  Zero padding: a number of at most \<open>w\<close> digits is written with exactly \<open>w\<close> digits. The
  month, the day and the hour of a datetime have at most two digits. Its year has at most
  four, and exactly four from the year 1000 on, where the decimal digits of the year are
  the year padded to four digits.
\<close>

lemma str_nat_length:
  "0 \<le> n \<Longrightarrow> n < 10 ^ w \<Longrightarrow> 0 < w \<Longrightarrow> length (str_nat n) \<le> w"
proof (induction n arbitrary: w rule: str_nat.induct)
  case (1 n)
  show ?case
  proof (cases "n < 10")
    case True
    then show ?thesis using "1.prems" by (simp add: str_nat.simps [of n])
  next
    case False
    then obtain v where w: "w = Suc v" and v: "0 < v"
      using "1.prems" by (cases w; cases "w - 1") auto
    have "n div 10 < 10 ^ v"
      using "1.prems"(2) w by simp
    with "1.IH" [of v] False "1.prems"(1) v have "length (str_nat (n div 10)) \<le> v"
      by simp
    then show ?thesis using False w by (simp add: str_nat.simps [of n])
  qed
qed

lemma str_nat_digits: "0 \<le> n \<Longrightarrow> list_all is_digit (str_nat n)"
proof (induction n rule: str_nat.induct)
  case (1 n)
  have d: "is_digit (digit_char k)" if "0 \<le> k" "k < 10" for k
    using that by (simp add: is_digit_def digit_char_def)
  show ?case
  proof (cases "n < 10")
    case True
    then show ?thesis using "1.prems" d by (simp add: str_nat.simps [of n])
  next
    case False
    then show ?thesis using "1.IH" "1.prems" d [of "n mod 10"]
      by (simp add: str_nat.simps [of n])
  qed
qed

lemma zero_pad_width:
  assumes "0 \<le> n" "n < 10 ^ w" "0 < w"
  shows "length (zero_pad w n) = w \<and> list_all is_digit (zero_pad w n)"
  using str_nat_length [OF assms] str_nat_digits [OF assms(1)]
  by (auto simp: zero_pad_def is_digit_def list_all_iff)




lemma output_path_widths:
  assumes "valid_fields (year h) (month h) (day h) (hour_of_day h) (minute h) (second h)
             (microsecond h)"
  shows "length (strftime_Y h) \<le> 4 \<and> length (strftime_m h) = 2 \<and> length (strftime_d h) = 2
         \<and> length (strftime_H h) = 2"
proof -
  have "days_in_month (year h) (month h) \<le> 31"
    by (simp add: days_in_month_def)
  with assms show ?thesis
    by (simp add: valid_fields_def strftime_Y_def strftime_m_def strftime_d_def strftime_H_def
          zero_pad_width str_nat_length)
qed





section \<open>Configuration and the job: properties\<close>

lemma required_var_cases:
  "required_var env var dflt =
     (case env var of
        Some v \<Rightarrow> Inr v
      | None \<Rightarrow> (case dflt of None \<Rightarrow> Inl (RuntimeError_MissingEnv var) | Some v \<Rightarrow> Inr v))"
  by (simp add: required_var_def get_env_var_def split: option.splits)

lemma py_int_24: "py_int ''24'' = Inr 24"
  by code_simp

lemma py_int_examples:
  "py_int ''-5'' = Inr (- 5)"
  "py_int ''2.5'' = Inl (ValueError_InvalidLiteral ''2.5'')"
  by code_simp+

text \<open>
  C9. The claim: loading the configuration fails with the ConfigurationError exactly when
  the input or the output bucket is absent, the lookback window is 24 when unset, and every
  accepted lookback value is a non-negative integer, a negative one being rejected. The
  last part fails: \<^verbatim>\<open>int("-5")\<close> is \<open>-5\<close>, and nothing checks its sign.
\<close>

theorem load_config_accepts_negative:
  "\<exists>cfg. load_config [''INPUT_BUCKET'' \<mapsto> ''in'', ''OUTPUT_BUCKET'' \<mapsto> ''out'',
                        ''LOOKBACK_HOURS'' \<mapsto> ''-5''] = Inr cfg
         \<and> lookback_hours cfg < 0"
proof -
  have "load_config [''INPUT_BUCKET'' \<mapsto> ''in'', ''OUTPUT_BUCKET'' \<mapsto> ''out'',
                     ''LOOKBACK_HOURS'' \<mapsto> ''-5'']
        = Inr \<lparr>input_bucket = ''in'', output_bucket = ''out'', input_prefix = ''events/'',
               lookback_hours = - 5\<rparr>"
    by code_simp
  then show ?thesis by simp
qed

text \<open>
  C9, as the code has it. Loading fails with the \<^verbatim>\<open>RuntimeError\<close> of a missing variable exactly
  when \<^verbatim>\<open>INPUT_BUCKET\<close> or \<^verbatim>\<open>OUTPUT_BUCKET\<close> is not set; with both set, an unset
  \<^verbatim>\<open>LOOKBACK_HOURS\<close> gives 24; every accepted lookback value is what \<^verbatim>\<open>int\<close> reads from the
  variable, and every integer that \<^verbatim>\<open>int\<close> reads is accepted, negative ones too; a value that
  \<^verbatim>\<open>int\<close> does not read ends the run with the \<^verbatim>\<open>ValueError\<close> of \<^verbatim>\<open>int\<close>.
\<close>

theorem load_config_cases:
  "((\<exists>var. load_config env = Inl (RuntimeError_MissingEnv var))
      = (env ''INPUT_BUCKET'' = None \<or> env ''OUTPUT_BUCKET'' = None))
   \<and> (env ''INPUT_BUCKET'' \<noteq> None \<and> env ''OUTPUT_BUCKET'' \<noteq> None
        \<and> env ''LOOKBACK_HOURS'' = None \<longrightarrow>
      (\<exists>cfg. load_config env = Inr cfg \<and> lookback_hours cfg = 24))
   \<and> (\<forall>cfg. load_config env = Inr cfg \<longrightarrow>
         py_int (case env ''LOOKBACK_HOURS'' of None \<Rightarrow> ''24'' | Some s \<Rightarrow> s)
           = Inr (lookback_hours cfg))
   \<and> (\<forall>s n. env ''INPUT_BUCKET'' \<noteq> None \<and> env ''OUTPUT_BUCKET'' \<noteq> None
          \<and> env ''LOOKBACK_HOURS'' = Some s \<and> py_int s = Inr n \<longrightarrow>
         (\<exists>cfg. load_config env = Inr cfg \<and> lookback_hours cfg = n))
   \<and> (\<forall>s e. env ''INPUT_BUCKET'' \<noteq> None \<and> env ''OUTPUT_BUCKET'' \<noteq> None
          \<and> env ''LOOKBACK_HOURS'' = Some s \<and> py_int s = Inl e \<longrightarrow>
         load_config env = Inl e
         \<and> (e = ValueError_InvalidLiteral s \<or> e = ValueError_ExceedsLimit))"
proof -
  have kinds: "e = ValueError_InvalidLiteral s \<or> e = ValueError_ExceedsLimit"
    if "py_int s = Inl e" for s e
    using that by (auto simp: py_int_def Let_def split: option.splits if_splits)
  have missing: "py_int s \<noteq> Inl (RuntimeError_MissingEnv var)" for s var
    using kinds [of s "RuntimeError_MissingEnv var"] by auto
  show ?thesis
    using kinds missing
    by (auto simp: load_config_def required_var_cases py_int_24 split: option.splits sum.splits)
qed

theorem load_config_cases_witness:
  "(\<exists>cfg. load_config env_defaults = Inr cfg \<and> lookback_hours cfg = 24)
   \<and> (\<exists>cfg. load_config env_negative = Inr cfg \<and> lookback_hours cfg = - 5)
   \<and> load_config env_fraction = Inl (ValueError_InvalidLiteral ''2.5'')
   \<and> (\<exists>var. load_config env_no_output = Inl (RuntimeError_MissingEnv var))"
proof -
  have "\<exists>cfg. load_config env_defaults = Inr cfg \<and> lookback_hours cfg = 24"
    using load_config_cases [of env_defaults] by (simp add: env_defaults_def)
  moreover have "\<exists>cfg. load_config env_negative = Inr cfg \<and> lookback_hours cfg = - 5"
    using load_config_cases [of env_negative] by (simp add: env_negative_def py_int_examples)
  moreover have "load_config env_fraction = Inl (ValueError_InvalidLiteral ''2.5'')"
    using load_config_cases [of env_fraction] by (simp add: env_fraction_def py_int_examples)
  moreover have "\<exists>var. load_config env_no_output = Inl (RuntimeError_MissingEnv var)"
    using load_config_cases [of env_no_output] by (simp add: env_no_output_def)
  ultimately show ?thesis by blast
qed

text \<open>
  C10. When the filter returns no file, \<^verbatim>\<open>main\<close> returns right after the discovery phase:
  its last log line is the one of the early return, no upload is made, and the result
  depends neither on the decoder nor on the JSON reader nor on the bytes of any file, so
  no later stage has run.
\<close>

theorem main_no_eligible_files:
  assumes "load_config (environ w) = Inr cfg"
    and "list_eligible_json_files (now w) (list_blobs w)
           (input_bucket cfg) (input_prefix cfg) (lookback_hours cfg) = Inr []"
  shows "main decode loads w =
           ([''Cloud Run Job started'',
             ''Configuration loaded:'',
             ''INPUT_BUCKET='' @ input_bucket cfg,
             ''OUTPUT_BUCKET='' @ output_bucket cfg,
             ''INPUT_PREFIX='' @ input_prefix cfg,
             ''LOOKBACK_HOURS='' @ str_int (lookback_hours cfg),
             ''Job finished file discovery phase'',
             ''No eligible files to process. Exiting job.''],
            Inr [])"
  using assms by (simp add: main_def)

theorem main_no_eligible_files_witness:
  "load_config (environ example_world) = Inr example_config
   \<and> list_eligible_json_files (now example_world) (list_blobs example_world)
        (input_bucket example_config) (input_prefix example_config)
        (lookback_hours example_config) = Inr []
   \<and> main ascii_decode toy_loads example_world =
        ([''Cloud Run Job started'',
          ''Configuration loaded:'',
          ''INPUT_BUCKET=in'',
          ''OUTPUT_BUCKET=out'',
          ''INPUT_PREFIX=events/'',
          ''LOOKBACK_HOURS=24'',
          ''Job finished file discovery phase'',
          ''No eligible files to process. Exiting job.''],
         Inr [])"
proof -
  have c: "load_config (environ example_world) = Inr example_config"
    by code_simp
  have e: "list_eligible_json_files (now example_world) (list_blobs example_world)
        (input_bucket example_config) (input_prefix example_config)
        (lookback_hours example_config) = Inr []"
    by code_simp
  have s: "str_int (lookback_hours example_config) = ''24''"
    by code_simp
  from main_no_eligible_files [OF c e, of ascii_decode toy_loads] c e s show ?thesis
    by (simp add: example_config_def)
qed

end
